theory Spec2Isabelle
  imports Complex_Main "HOL-Library.Word" "HOL-Library.Sublist" "HOL-Library.Log_Nat"
begin

unbundle bit_operations_syntax

section \<open>Training-status classifier\<close>

text \<open>
  The dashboard page classifies the form value (TSB) of the performance snapshot:
  \<^verbatim>\<open>
  const formStatus = (tsb: number) => {
    if (tsb < -30) return { text: 'Very Fatigued', color: 'red' };
    if (tsb < -10) return { text: 'Training Hard', color: 'yellow' };
    if (tsb < 5) return { text: 'Neutral', color: 'blue' };
    if (tsb < 15) return { text: 'Fresh', color: 'green' };
    return { text: 'Very Fresh', color: 'green' };
  };
  \<close>
  The argument is a real number here. (A JavaScript number can also be NaN, which fails
  every comparison and so reaches the last \<^verbatim>\<open>return\<close>.)
\<close>

record status =
  text' :: string
  color :: string

definition formStatus :: "real \<Rightarrow> status" where
  "formStatus tsb =
     (if tsb < -30 then \<lparr>text' = ''Very Fatigued'', color = ''red''\<rparr>
      else if tsb < -10 then \<lparr>text' = ''Training Hard'', color = ''yellow''\<rparr>
      else if tsb < 5 then \<lparr>text' = ''Neutral'', color = ''blue''\<rparr>
      else if tsb < 15 then \<lparr>text' = ''Fresh'', color = ''green''\<rparr>
      else \<lparr>text' = ''Very Fresh'', color = ''green''\<rparr>)"

section \<open>Browser state and the API client\<close>

text \<open>
  The browser state that the client reads and writes: the local storage (a dictionary
  from keys to strings; \<^verbatim>\<open>getItem\<close> of a missing key is \<^verbatim>\<open>null\<close>, here \<open>None\<close>), the
  network (every request issued is appended to a log), the router (every
  \<^verbatim>\<open>router.push\<close> is appended to a log), the query cache of the data-fetching library
  (each cached query is fresh or invalidated) and the \<^verbatim>\<open>alert\<close> dialogs shown. An \<^verbatim>\<open>await\<close>ed call is
  modelled by the outcome the server gives it, passed in as an argument: the promise
  either resolves with a value or rejects with an error message.

  A request is recorded by its method, its URL below \<^verbatim>\<open>API_BASE_URL\<close> and its
  headers. Request bodies and query parameters take no part in what follows.
\<close>

type_synonym storage = "string \<rightharpoonup> string"

record request =
  http_method :: string
  url :: string
  headers :: "string \<rightharpoonup> string"

type_synonym query_key = "string list"

datatype query_state = Fresh | Invalidated

record world =
  localStorage :: storage
  requests :: "request list"
  pushed :: "string list"
  cache :: "query_key \<rightharpoonup> query_state"
  alerts :: "string list"

datatype 'a outcome = Resolved 'a | Rejected string

text \<open>
  Two worlds for concrete runs: an empty one, and one whose cache holds the queries of
  the activity list, the user record, the zones, the coach settings, the calendar
  workouts and the coaching context, all fresh.
\<close>

definition world0 :: world where
  "world0 =
     \<lparr>localStorage = Map.empty, requests = [], pushed = [], cache = Map.empty, alerts = []\<rparr>"


text \<open>
  \<^verbatim>\<open>
  api.interceptors.request.use((config) => {
    const token = localStorage.getItem('token');
    if (token) {
      config.headers.Authorization = `Bearer ${token}`;
    }
    return config;
  });
  \<close>
  \<^verbatim>\<open>if (token)\<close> is false for \<^verbatim>\<open>null\<close> and for the empty string.
\<close>

definition interceptor :: "storage \<Rightarrow> request \<Rightarrow> request" where
  "interceptor ls config =
     (case ls ''token'' of
        None \<Rightarrow> config
      | Some token \<Rightarrow>
          if token \<noteq> []
          then config\<lparr>headers := (headers config)(''Authorization'' \<mapsto> ''Bearer '' @ token)\<rparr>
          else config)"

text \<open>
  The operations of the API client, one constructor for each exported function of the
  client module that issues a request, with the arguments that appear in its URL.
\<close>

datatype api_op =
    Register | Login | GetMe
  | GetActivities | GetActivity string | GetActivityRecords string | UploadFitFile
  | DeleteActivity string | CombineActivities
  | GetMetricsRange | GetPerformanceSnapshot | GetWeeklySummaries
  | GetHrMethods | GetPowerMethods | GetHrZones | GetPowerZones
  | UpdateThresholds | UpdateZoneConfig
  | GetWorkouts | CreateWorkout | UpdateWorkout string | DeleteWorkout string
  | Chat | ChatStream
  | GetCoachingContext | AnalyzePlan | GenerateWeeklyPlan | ApplyPlanModifications
  | RefinePlanSuggestions
  | GetCoachSettings | UpdateCoachSettings
  | GetGarminConnectUrl | GetConcept2ConnectUrl | SyncGarmin | SyncConcept2
  | DisconnectGarmin | DisconnectConcept2

definition mk_request :: "string \<Rightarrow> string \<Rightarrow> request" where
  "mk_request m path =
     \<lparr>http_method = m, url = ''/api/v1'' @ path, headers = Map.empty\<rparr>"

text \<open>
  The configuration each function hands to the axios instance \<^verbatim>\<open>api\<close> (base URL
  \<^verbatim>\<open>${API_BASE_URL}/api/v1\<close>), before the interceptor runs. \<^verbatim>\<open>chatStream\<close> does not use
  the axios instance; its entry is the request it passes to \<^verbatim>\<open>fetch\<close>, without the
  \<^verbatim>\<open>Authorization\<close> header, which \<open>chatStream_request\<close> adds.
\<close>

fun config_of :: "api_op \<Rightarrow> request" where
  "config_of Register = mk_request ''POST'' ''/auth/register''"
| "config_of Login = mk_request ''POST'' ''/auth/login''"
| "config_of GetMe = mk_request ''GET'' ''/auth/me''"
| "config_of GetActivities = mk_request ''GET'' ''/activities''"
| "config_of (GetActivity i) = mk_request ''GET'' (''/activities/'' @ i)"
| "config_of (GetActivityRecords i) = mk_request ''GET'' (''/activities/'' @ i @ ''/records'')"
| "config_of UploadFitFile =
     (mk_request ''POST'' ''/activities/upload'')
       \<lparr>headers := [''Content-Type'' \<mapsto> ''multipart/form-data'']\<rparr>"
| "config_of (DeleteActivity i) = mk_request ''DELETE'' (''/activities/'' @ i)"
| "config_of CombineActivities = mk_request ''POST'' ''/activities/combine''"
| "config_of GetMetricsRange = mk_request ''GET'' ''/metrics/range''"
| "config_of GetPerformanceSnapshot = mk_request ''GET'' ''/metrics/snapshot''"
| "config_of GetWeeklySummaries = mk_request ''GET'' ''/metrics/weekly''"
| "config_of GetHrMethods = mk_request ''GET'' ''/zones/hr/methods''"
| "config_of GetPowerMethods = mk_request ''GET'' ''/zones/power/methods''"
| "config_of GetHrZones = mk_request ''GET'' ''/zones/hr''"
| "config_of GetPowerZones = mk_request ''GET'' ''/zones/power''"
| "config_of UpdateThresholds = mk_request ''PUT'' ''/zones/thresholds''"
| "config_of UpdateZoneConfig = mk_request ''PUT'' ''/zones/config''"
| "config_of GetWorkouts = mk_request ''GET'' ''/workouts''"
| "config_of CreateWorkout = mk_request ''POST'' ''/workouts''"
| "config_of (UpdateWorkout i) = mk_request ''PUT'' (''/workouts/'' @ i)"
| "config_of (DeleteWorkout i) = mk_request ''DELETE'' (''/workouts/'' @ i)"
| "config_of Chat = mk_request ''POST'' ''/ai/chat''"
| "config_of ChatStream =
     (mk_request ''POST'' ''/ai/chat/stream'')
       \<lparr>headers := [''Content-Type'' \<mapsto> ''application/json'']\<rparr>"
| "config_of GetCoachingContext = mk_request ''GET'' ''/ai/context''"
| "config_of AnalyzePlan = mk_request ''POST'' ''/ai/plan/analyze''"
| "config_of GenerateWeeklyPlan = mk_request ''POST'' ''/ai/plan/generate''"
| "config_of ApplyPlanModifications = mk_request ''POST'' ''/ai/plan/apply''"
| "config_of RefinePlanSuggestions = mk_request ''POST'' ''/ai/plan/refine''"
| "config_of GetCoachSettings = mk_request ''GET'' ''/ai/settings''"
| "config_of UpdateCoachSettings = mk_request ''PUT'' ''/ai/settings''"
| "config_of GetGarminConnectUrl = mk_request ''GET'' ''/integrations/garmin/connect''"
| "config_of GetConcept2ConnectUrl = mk_request ''GET'' ''/integrations/concept2/connect''"
| "config_of SyncGarmin = mk_request ''POST'' ''/integrations/garmin/sync''"
| "config_of SyncConcept2 = mk_request ''POST'' ''/integrations/concept2/sync''"
| "config_of DisconnectGarmin = mk_request ''DELETE'' ''/integrations/garmin/disconnect''"
| "config_of DisconnectConcept2 = mk_request ''DELETE'' ''/integrations/concept2/disconnect''"

text \<open>
  \<^verbatim>\<open>
  const token = localStorage.getItem('token');
  const response = await fetch(`${API_BASE_URL}/api/v1/ai/chat/stream`, {
    method: 'POST',
    headers: {
      'Content-Type': 'application/json',
      Authorization: `Bearer ${token}`,
    },
    body: JSON.stringify({ message, conversation_history: history }),
  });
  \<close>
  The template literal converts its argument to a string: \<^verbatim>\<open>null\<close> becomes the four
  characters \<^verbatim>\<open>null\<close>.
\<close>

definition template_string :: "string option \<Rightarrow> string" where
  "template_string v = (case v of None \<Rightarrow> ''null'' | Some s \<Rightarrow> s)"

definition chatStream_request :: "storage \<Rightarrow> request" where
  "chatStream_request ls =
     (let token = ls ''token'' in
      (config_of ChatStream)
        \<lparr>headers := (headers (config_of ChatStream))
           (''Authorization'' \<mapsto> ''Bearer '' @ template_string token)\<rparr>)"

text \<open>The request that leaves the browser for an operation, given the local storage.\<close>

definition outbound :: "storage \<Rightarrow> api_op \<Rightarrow> request" where
  "outbound ls op =
     (if op = ChatStream then chatStream_request ls else interceptor ls (config_of op))"

definition send :: "api_op \<Rightarrow> world \<Rightarrow> world" where
  "send op w = w\<lparr>requests := requests w @ [outbound (localStorage w) op]\<rparr>"

section \<open>Auth session holder\<close>

datatype coach_type = specialist | generalist | recreational
datatype training_plan = polarized | traditional | threshold
datatype time_constraint = minimal | moderate | committed | serious | elite

record CoachSettings =
  coach_type :: coach_type
  training_plan :: training_plan
  time_constraint :: time_constraint
  weekly_hours_available :: "rat option"

record User =
  user_id :: string
  email :: string
  name :: string
  primary_sport :: string
  coach_settings :: "CoachSettings option"

text \<open>
  The state of \<^verbatim>\<open>AuthProvider\<close>: \<^verbatim>\<open>useState<User | null>(null)\<close> and
  \<^verbatim>\<open>useState(true)\<close>.
\<close>

record auth =
  user :: "User option"
  loading :: bool

definition auth_init :: auth where
  "auth_init = \<lparr>user = None, loading = True\<rparr>"

text \<open>
  The effect run once when the provider mounts:
  \<^verbatim>\<open>
  useEffect(() => {
    const token = localStorage.getItem('token');
    if (token) {
      getMe()
        .then(setUser)
        .catch(() => {
          localStorage.removeItem('token');
        })
        .finally(() => setLoading(false));
    } else {
      setLoading(false);
    }
  }, []);
  \<close>
  \<open>me\<close> is the outcome of the \<^verbatim>\<open>GET /auth/me\<close> request, consulted only when the request
  is made.
\<close>

definition bootstrap :: "User outcome \<Rightarrow> auth \<times> world \<Rightarrow> auth \<times> world" where
  "bootstrap me = (\<lambda>(a, w).
     (case localStorage w ''token'' of
        None \<Rightarrow> (a\<lparr>loading := False\<rparr>, w)
      | Some token \<Rightarrow>
          if token \<noteq> [] then
            (let w1 = send GetMe w in
             case me of
               Resolved u \<Rightarrow> (a\<lparr>user := Some u, loading := False\<rparr>, w1)
             | Rejected e \<Rightarrow>
                 (a\<lparr>loading := False\<rparr>,
                  w1\<lparr>localStorage := (localStorage w1)(''token'' := None)\<rparr>))
          else (a\<lparr>loading := False\<rparr>, w)))"

text \<open>
  \<^verbatim>\<open>
  const login = async (email: string, password: string) => {
    const { access_token } = await apiLogin(email, password);
    localStorage.setItem('token', access_token);
    const userData = await getMe();
    setUser(userData);
    router.push('/dashboard');
  };
  \<close>
  \<^verbatim>\<open>register\<close> is the same with \<^verbatim>\<open>apiRegister\<close>. The outcome of the exchange carries the
  \<^verbatim>\<open>access_token\<close> property of the response body (\<open>None\<close> when the body has none:
  \<^verbatim>\<open>setItem\<close> then stores the string \<^verbatim>\<open>undefined\<close>). The result is the outcome of the
  promise the function returns: a rejected \<^verbatim>\<open>await\<close> rejects it and skips the rest of the
  body.
\<close>

definition setItem_string :: "string option \<Rightarrow> string" where
  "setItem_string v = (case v of None \<Rightarrow> ''undefined'' | Some s \<Rightarrow> s)"

definition exchange ::
  "api_op \<Rightarrow> string option outcome \<Rightarrow> User outcome \<Rightarrow> auth \<times> world
     \<Rightarrow> unit outcome \<times> auth \<times> world" where
  "exchange op tok me = (\<lambda>(a, w).
     (let w1 = send op w in
      case tok of
        Rejected e \<Rightarrow> (Rejected e, a, w1)
      | Resolved access_token \<Rightarrow>
          (let w2 = w1\<lparr>localStorage :=
                  (localStorage w1)(''token'' \<mapsto> setItem_string access_token)\<rparr>;
               w3 = send GetMe w2
           in case me of
                Rejected e \<Rightarrow> (Rejected e, a, w3)
              | Resolved userData \<Rightarrow>
                  (Resolved (), a\<lparr>user := Some userData\<rparr>,
                   w3\<lparr>pushed := pushed w3 @ [''/dashboard'']\<rparr>))))"

definition login ::
  "string option outcome \<Rightarrow> User outcome \<Rightarrow> auth \<times> world \<Rightarrow> unit outcome \<times> auth \<times> world" where
  "login = exchange Login"

definition register ::
  "string option outcome \<Rightarrow> User outcome \<Rightarrow> auth \<times> world \<Rightarrow> unit outcome \<times> auth \<times> world" where
  "register = exchange Register"

text \<open>
  \<^verbatim>\<open>
  const logout = () => {
    localStorage.removeItem('token');
    setUser(null);
    router.push('/login');
  };
  \<close>
\<close>

definition logout :: "auth \<times> world \<Rightarrow> auth \<times> world" where
  "logout = (\<lambda>(a, w).
     (a\<lparr>user := None\<rparr>,
      w\<lparr>localStorage := (localStorage w)(''token'' := None),
        pushed := pushed w @ [''/login'']\<rparr>))"

section \<open>Upload page\<close>

text \<open>
  \<^verbatim>\<open>toLowerCase\<close> on the letters A to Z; every other character stays. (JavaScript also
  lowers letters outside ASCII; none of them becomes one of the four characters of
  \<^verbatim>\<open>.fit\<close>, so the suffix test below does not see the difference.)
\<close>

definition toLowerCase_char :: "char \<Rightarrow> char" where
  "toLowerCase_char c =
     (case map_of (zip ''ABCDEFGHIJKLMNOPQRSTUVWXYZ'' ''abcdefghijklmnopqrstuvwxyz'') c of
        None \<Rightarrow> c
      | Some l \<Rightarrow> l)"

definition toLowerCase :: "string \<Rightarrow> string" where
  "toLowerCase s = map toLowerCase_char s"

definition endsWith :: "string \<Rightarrow> string \<Rightarrow> bool" where
  "endsWith s t = suffix t s"

datatype result_type = success | duplicate | error

record upload_result =
  rtype :: result_type
  message :: string
  activityId :: "string option"

text \<open>
  The body of the upload response (an object) as \<^verbatim>\<open>onSuccess\<close> reads it:
  \<^verbatim>\<open>data.duplicates\<close> (as a truth value), \<^verbatim>\<open>data.activity.id\<close> and \<^verbatim>\<open>data.id\<close>. For
  \<open>activity_id\<close>, \<open>None\<close> is a body with no \<^verbatim>\<open>activity\<close> member, on which reading
  \<^verbatim>\<open>data.activity.id\<close> throws a \<^verbatim>\<open>TypeError\<close>, and \<open>Some i\<close> is a body whose \<^verbatim>\<open>activity\<close> has
  the \<^verbatim>\<open>id\<close> \<open>i\<close>, itself \<open>None\<close> when the activity has none.
\<close>

record upload_data =
  duplicates :: bool
  activity_id :: "string option option"
  data_id :: "string option"

text \<open>The message of that \<^verbatim>\<open>TypeError\<close>, in the wording of V8.\<close>

definition TypeError_message :: string where
  "TypeError_message =
     ''Cannot read properties of undefined (reading '' @ [CHR 0x27] @ ''id'' @ [CHR 0x27] @ '')''"

text \<open>
  \<^verbatim>\<open>
  const uploadMutation = useMutation({
    mutationFn: uploadFitFile,
    onSuccess: (data) => {
      if (data.duplicates) {
        setUploadResult({ type: 'duplicate', message: `Potential duplicate found. ...`,
          activityId: data.activity.id });
      } else {
        setUploadResult({ type: 'success', message: 'Activity uploaded successfully!',
          activityId: data.id });
      }
    },
    onError: (error: Error) => {
      setUploadResult({ type: 'error',
        message: error.message || 'Upload failed. Please try again.' });
    },
  });
  \<close>
  The state of the page is \<^verbatim>\<open>uploadResult\<close>. An error thrown by \<^verbatim>\<open>onSuccess\<close> is caught by
  the library, which then calls \<^verbatim>\<open>onError\<close> with it.
\<close>

definition uploadMutation_mutate ::
  "upload_data outcome \<Rightarrow> upload_result option \<times> world \<Rightarrow> upload_result option \<times> world" where
  "uploadMutation_mutate resp = (\<lambda>(r, w).
     (let w1 = send UploadFitFile w;
          onError = (\<lambda>e. (Some \<lparr>rtype = error,
             message = (if e \<noteq> [] then e else ''Upload failed. Please try again.''),
             activityId = None\<rparr>, w1))
      in
      case resp of
        Resolved d \<Rightarrow>
          if duplicates d then
            (case activity_id d of
               None \<Rightarrow> onError TypeError_message
             | Some i \<Rightarrow>
                 (Some \<lparr>rtype = duplicate,
                    message = ''Potential duplicate found. Activity saved but may overlap with existing data.'',
                    activityId = i\<rparr>, w1))
          else
            (Some \<lparr>rtype = success, message = ''Activity uploaded successfully!'',
               activityId = data_id d\<rparr>, w1)
      | Rejected e \<Rightarrow> onError e))"

text \<open>
  \<^verbatim>\<open>
  const handleFile = useCallback((file: File) => {
      if (!file.name.toLowerCase().endsWith('.fit')) {
        setUploadResult({ type: 'error', message: 'Only .FIT files are supported.' });
        return;
      }
      setUploadResult(null);
      uploadMutation.mutate(file);
    }, [uploadMutation]);
  \<close>
\<close>

definition handleFile ::
  "string \<Rightarrow> upload_data outcome \<Rightarrow> upload_result option \<times> world
     \<Rightarrow> upload_result option \<times> world" where
  "handleFile file_name resp = (\<lambda>(r, w).
     if \<not> endsWith (toLowerCase file_name) ''.fit'' then
       (Some \<lparr>rtype = error, message = ''Only .FIT files are supported.'', activityId = None\<rparr>, w)
     else uploadMutation_mutate resp (None, w))"

section \<open>Query cache and mutations\<close>










section \<open>Zone preview\<close>

text \<open>
  \<^verbatim>\<open>Math.round\<close> rounds to the nearest integer, a half towards plus infinity.
\<close>

definition Math_round :: "real \<Rightarrow> int" where
  "Math_round x = \<lfloor>x + 0.5\<rfloor>"

subsection \<open>Numbers of the thresholds tab\<close>

text \<open>
  A JavaScript number is an IEEE 754 double: \<^verbatim>\<open>NaN\<close>, plus or minus \<^verbatim>\<open>Infinity\<close> (\<open>True\<close>
  is plus), or a finite value. The numbers that the preview displays are results of
  \<^verbatim>\<open>parseInt\<close>, of \<^verbatim>\<open>Math.round\<close> and of \<^verbatim>\<open>+ 1\<close> on such a result; when finite they are
  integers (\<open>int number\<close>). The products under \<^verbatim>\<open>Math.round\<close> are \<open>real number\<close>s. Minus
  zero is not told from zero: both are displayed as \<^verbatim>\<open>0\<close>.
\<close>

datatype 'a number = NaN | Infinity bool | Num 'a

text \<open>
  A finite double other than zero is \<open>m * 2 ^ e\<close> with an integer \<open>m\<close> of at most 53 bits.
  The result of an arithmetic operation is the double nearest to the exact result, the
  one with the even \<open>m\<close> when two are equally near. \<open>round53 N\<close> is the integer nearest to
  \<open>N\<close> in this sense among those with at most 53 significant bits: with \<open>b\<close> the number of
  bits of \<open>\<bar>N\<bar>\<close>, the low \<open>b - 53\<close> bits are rounded away.
\<close>

definition round53 :: "int \<Rightarrow> int" where
  "round53 N =
     (let a = \<bar>N\<bar>; b = bitlen a in
      if b \<le> 53 then N
      else
        (let e = 2 ^ nat (b - 53); q = a div e; r = a mod e;
             m = (if 2 * r < e then q else if e < 2 * r then q + 1
                  else if even q then q else q + 1)
         in sgn N * (m * e)))"

text \<open>
  The double nearest to an integer. A result of magnitude \<open>2 ^ 1024\<close> or more is
  \<^verbatim>\<open>Infinity\<close>.
\<close>

definition double_of :: "int \<Rightarrow> int number" where
  "double_of N = (let M = round53 N in if 2 ^ 1024 \<le> \<bar>M\<bar> then Infinity (0 < N) else Num M)"

text \<open>
  A numeric literal of the source is the double nearest to its decimal value, given here
  as a pair \<open>(K, s)\<close> for the value \<open>K / 2 ^ s\<close>. \<^verbatim>\<open>0.5\<close>, \<^verbatim>\<open>0.75\<close> and \<^verbatim>\<open>1.5\<close> are doubles;
  \<^verbatim>\<open>1.1\<close> is \<^verbatim>\<open>0x1.199999999999Ap+0\<close>, \<^verbatim>\<open>0.55\<close> is \<^verbatim>\<open>0x1.199999999999Ap-1\<close>, both above
  the decimal value, and \<^verbatim>\<open>1.2\<close> is \<^verbatim>\<open>0x1.3333333333333p+0\<close>, below it.
\<close>

type_synonym literal = "int \<times> nat"

definition literal_value :: "literal \<Rightarrow> real" where
  "literal_value c = real_of_int (fst c) / 2 ^ snd c"

definition lit_0_5 :: literal where "lit_0_5 = (1, 1)"
definition lit_0_55 :: literal where "lit_0_55 = (0x1199999999999A, 53)"
definition lit_0_75 :: literal where "lit_0_75 = (3, 2)"
definition lit_1_1 :: literal where "lit_1_1 = (0x1199999999999A, 52)"
definition lit_1_2 :: literal where "lit_1_2 = (0x13333333333333, 52)"
definition lit_1_5 :: literal where "lit_1_5 = (3, 1)"

text \<open>
  \<^verbatim>\<open>x * c\<close> for an integer-valued number \<open>x\<close> and a positive literal \<open>c = K / 2 ^ s\<close>: the
  exact product of a finite \<open>n\<close> is \<open>n * K / 2 ^ s\<close>, and the nearest double is
  \<open>round53 (n * K) / 2 ^ s\<close>. (With \<open>s\<close> at most 53 the product of an integer that is not
  zero is far above the range of the subnormal doubles.)
\<close>

definition times_literal :: "int number \<Rightarrow> literal \<Rightarrow> real number" where
  "times_literal x c =
     (case x of
        NaN \<Rightarrow> NaN
      | Infinity b \<Rightarrow> Infinity b
      | Num n \<Rightarrow>
          (let M = round53 (n * fst c) in
           if 2 ^ (1024 + snd c) \<le> \<bar>M\<bar> then Infinity (0 < n)
           else Num (real_of_int M / 2 ^ snd c)))"

text \<open>
  \<^verbatim>\<open>Math.round\<close> of a number: exact on a finite double (a double of magnitude \<open>2 ^ 52\<close> or
  more is an integer, and below that the rounded value is a double).
\<close>

definition Math_round_number :: "real number \<Rightarrow> int number" where
  "Math_round_number x =
     (case x of NaN \<Rightarrow> NaN | Infinity b \<Rightarrow> Infinity b | Num v \<Rightarrow> Num (Math_round v))"

text \<open>\<^verbatim>\<open>x + 1\<close>: the double nearest to the exact sum.\<close>

definition plus1 :: "int number \<Rightarrow> int number" where
  "plus1 x = (case x of NaN \<Rightarrow> NaN | Infinity b \<Rightarrow> Infinity b | Num n \<Rightarrow> double_of (n + 1))"

text \<open>
  \<^verbatim>\<open>parseInt(s)\<close> with no radix: leading white space is skipped, then a sign, then a
  \<^verbatim>\<open>0x\<close> or \<^verbatim>\<open>0X\<close> prefix (radix 16, else radix 10), then the longest run of digits of the
  radix; no digit gives \<^verbatim>\<open>NaN\<close>. The result is the double nearest to the integer read.
  White space is that of ASCII. (After the twentieth significant decimal digit an
  implementation may read the digits as zeros; here all digits are read.)
\<close>

definition is_ws :: "char \<Rightarrow> bool" where
  "is_ws c = (c \<in> set [CHR 0x09, CHR 0x0A, CHR 0x0B, CHR 0x0C, CHR 0x0D, CHR '' ''])"

definition digit_value :: "char \<Rightarrow> nat option" where
  "digit_value c =
     map_of (zip ''0123456789abcdefABCDEF''
               [0, 1, 2, 3, 4, 5, 6, 7, 8, 9, 10, 11, 12, 13, 14, 15, 10, 11, 12, 13, 14, 15]) c"

definition is_digit :: "nat \<Rightarrow> char \<Rightarrow> bool" where
  "is_digit radix c = (case digit_value c of None \<Rightarrow> False | Some d \<Rightarrow> d < radix)"

definition digits_value :: "nat \<Rightarrow> string \<Rightarrow> nat" where
  "digits_value radix z =
     foldl (\<lambda>a c. a * radix + (case digit_value c of None \<Rightarrow> 0 | Some d \<Rightarrow> d)) 0 z"

definition parseInt :: "string \<Rightarrow> int number" where
  "parseInt s =
     (let s1 = dropWhile is_ws s;
          (sign, s2) = (case s1 of
                          [] \<Rightarrow> (1::int, s1)
                        | c # r \<Rightarrow> if c = CHR ''-'' then (-1, r)
                                   else if c = CHR ''+'' then (1, r) else (1, s1));
          (radix, s3) = (if prefix ''0x'' s2 \<or> prefix ''0X'' s2 then (16, drop 2 s2)
                         else (10::nat, s2));
          z = takeWhile (is_digit radix) s3
      in if z = [] then NaN else double_of (sign * int (digits_value radix z)))"

text \<open>
  The decimal numeral of a natural number, as it is typed into a number input.
\<close>

fun decimal :: "nat \<Rightarrow> string" where
  "decimal n =
     (if n < 10 then [''0123456789'' ! n] else decimal (n div 10) @ [''0123456789'' ! (n mod 10)])"

declare decimal.simps [simp del]

definition plain_digit :: "char \<Rightarrow> bool" where
  "plain_digit c = (\<exists>d<10. c = ''0123456789'' ! d)"

subsection \<open>The two tabs\<close>

text \<open>
  One line of a zone table, as displayed: \<^verbatim>\<open>Zone n - Name: lower - upper\<close>. \<open>'n\<close> is the
  type of the two numbers.
\<close>

record 'n zone_line =
  zone :: nat
  zone_name :: string
  lower :: 'n
  upper :: 'n

record 'n zones_summary =
  hr_zones :: "'n zone_line list option"
  power_zones :: "'n zone_line list option"

text \<open>
  The thresholds tab holds the six inputs as strings, initially empty:
  \<^verbatim>\<open>
  const [thresholds, setThresholds] = useState({
    threshold_hr: '', max_hr: '', resting_hr: '',
    threshold_power: '', running_threshold_power: '', critical_power: '',
  });
  \<close>
\<close>

record thresholds_form =
  threshold_hr :: string
  max_hr :: string
  resting_hr :: string
  threshold_power :: string
  running_threshold_power :: string
  critical_power :: string

text \<open>\<^verbatim>\<open>Math.round(parseInt(s) * c)\<close> for a literal \<open>c\<close>.\<close>

definition scaled :: "string \<Rightarrow> literal \<Rightarrow> int number" where
  "scaled s c = Math_round_number (times_literal (parseInt s) c)"

text \<open>
  The preview below the inputs ("Your Zones Preview"). The block is rendered when
  \<^verbatim>\<open>thresholds.threshold_hr || thresholds.max_hr || thresholds.threshold_power\<close>; the
  heart-rate column when \<^verbatim>\<open>thresholds.threshold_hr || thresholds.max_hr\<close>, with zones 1 to
  4 under \<^verbatim>\<open>thresholds.threshold_hr && ...\<close> and zone 5 under
  \<^verbatim>\<open>thresholds.max_hr && thresholds.threshold_hr && ...\<close>; the power column when
  \<^verbatim>\<open>thresholds.threshold_power\<close>. A string is true when it is not empty. \<open>None\<close> is a
  block or a column that is not rendered.
\<close>

definition preview_hr_lines :: "thresholds_form \<Rightarrow> int number zone_line list" where
  "preview_hr_lines t =
     (if threshold_hr t \<noteq> [] then
        [\<lparr>zone = 1, zone_name = ''Recovery'', lower = Num 0,
          upper = scaled (threshold_hr t) lit_0_5\<rparr>,
         \<lparr>zone = 2, zone_name = ''Endurance'',
          lower = plus1 (scaled (threshold_hr t) lit_0_5),
          upper = scaled (threshold_hr t) lit_0_75\<rparr>,
         \<lparr>zone = 3, zone_name = ''Tempo'',
          lower = plus1 (scaled (threshold_hr t) lit_0_75), upper = parseInt (threshold_hr t)\<rparr>,
         \<lparr>zone = 4, zone_name = ''Threshold'',
          lower = plus1 (parseInt (threshold_hr t)), upper = scaled (threshold_hr t) lit_1_1\<rparr>]
      else [])
     @ (if max_hr t \<noteq> [] \<and> threshold_hr t \<noteq> [] then
          [\<lparr>zone = 5, zone_name = ''Max'',
            lower = plus1 (scaled (threshold_hr t) lit_1_1), upper = parseInt (max_hr t)\<rparr>]
        else [])"

definition preview_power_lines :: "thresholds_form \<Rightarrow> int number zone_line list" where
  "preview_power_lines t =
     [\<lparr>zone = 1, zone_name = ''Active'', lower = Num 0,
       upper = scaled (threshold_power t) lit_0_55\<rparr>,
      \<lparr>zone = 2, zone_name = ''Endurance'',
       lower = plus1 (scaled (threshold_power t) lit_0_55),
       upper = scaled (threshold_power t) lit_0_75\<rparr>,
      \<lparr>zone = 3, zone_name = ''Sweet Spot'',
       lower = plus1 (scaled (threshold_power t) lit_0_75),
       upper = parseInt (threshold_power t)\<rparr>,
      \<lparr>zone = 4, zone_name = ''VO2 Max'',
       lower = plus1 (parseInt (threshold_power t)), upper = scaled (threshold_power t) lit_1_2\<rparr>,
      \<lparr>zone = 5, zone_name = ''Anaerobic'',
       lower = plus1 (scaled (threshold_power t) lit_1_2),
       upper = scaled (threshold_power t) lit_1_5\<rparr>]"

definition ThresholdsTab_preview :: "thresholds_form \<Rightarrow> int number zones_summary option" where
  "ThresholdsTab_preview t =
     (if threshold_hr t \<noteq> [] \<or> max_hr t \<noteq> [] \<or> threshold_power t \<noteq> [] then
        Some \<lparr>hr_zones =
                 (if threshold_hr t \<noteq> [] \<or> max_hr t \<noteq> [] then Some (preview_hr_lines t)
                  else None),
              power_zones =
                 (if threshold_power t \<noteq> [] then Some (preview_power_lines t) else None)\<rparr>
      else None)"

text \<open>
  The zones tab reads the thresholds of the user record the server returns
  (\<^verbatim>\<open>user?.thresholds?.threshold_hr || 0\<close>): each may be absent, and so may the record.
  The numbers of this tab are taken as real numbers and its products as exact; what
  follows evaluates it where the threshold that is multiplied is absent, so that every
  product is zero.
\<close>

record ThresholdValues =
  threshold_hr_v :: "real option"
  max_hr_v :: "real option"
  resting_hr_v :: "real option"
  threshold_power_v :: "real option"
  running_threshold_power_v :: "real option"
  critical_power_v :: "real option"

text \<open>\<^verbatim>\<open>x || 0\<close> for a number or \<^verbatim>\<open>undefined\<close>.\<close>

definition or_zero :: "real option \<Rightarrow> real" where
  "or_zero x = (case x of None \<Rightarrow> 0 | Some v \<Rightarrow> v)"

definition lthr_of :: "ThresholdValues option \<Rightarrow> real" where
  "lthr_of tv = or_zero (Option.bind tv threshold_hr_v)"

definition maxHr_of :: "ThresholdValues option \<Rightarrow> real" where
  "maxHr_of tv = or_zero (Option.bind tv max_hr_v)"

definition ftp_of :: "ThresholdValues option \<Rightarrow> real" where
  "ftp_of tv = or_zero (Option.bind tv threshold_power_v)"

text \<open>
  The labels under the two gradient bars: \<^verbatim>\<open>lthr > 0 ? Math.round(lthr * 0.5) : '-'\<close>
  and so on, displayed as \<^verbatim>\<open>typeof zone.max === 'number' ? Math.round(zone.max) : zone.max\<close>.
  \<open>None\<close> is the dash.
\<close>

definition hrZones_max :: "ThresholdValues option \<Rightarrow> int option list" where
  "hrZones_max tv =
     (let lthr = lthr_of tv; maxHr = maxHr_of tv in
      [if lthr > 0 then Some (Math_round (real_of_int (Math_round (lthr * 0.5)))) else None,
       if lthr > 0 then Some (Math_round (real_of_int (Math_round (lthr * 0.75)))) else None,
       if lthr > 0 then Some (Math_round lthr) else None,
       if lthr > 0 then Some (Math_round (real_of_int (Math_round (lthr * 1.1)))) else None,
       if maxHr > 0 then Some (Math_round maxHr) else None])"

definition powerZones_max :: "ThresholdValues option \<Rightarrow> int option list" where
  "powerZones_max tv =
     (let ftp = ftp_of tv in
      [if ftp > 0 then Some (Math_round (real_of_int (Math_round (ftp * 0.55)))) else None,
       if ftp > 0 then Some (Math_round (real_of_int (Math_round (ftp * 0.75)))) else None,
       if ftp > 0 then Some (Math_round ftp) else None,
       if ftp > 0 then Some (Math_round (real_of_int (Math_round (ftp * 1.2)))) else None,
       if ftp > 0 then Some (Math_round (real_of_int (Math_round (ftp * 1.5)))) else None])"

text \<open>
  The summary at the bottom of the zones tab ("Your Zones"). Both columns are inside
  \<^verbatim>\<open>lthr > 0 || maxHr > 0 ? ... : <p>Configure thresholds ...</p>\<close>; the heart-rate
  column is under the same condition once more, the power column under \<^verbatim>\<open>ftp > 0\<close>.
\<close>

definition summary_hr_lines :: "real \<Rightarrow> real \<Rightarrow> real zone_line list" where
  "summary_hr_lines lthr maxHr =
     [\<lparr>zone = 1, zone_name = ''Recovery'', lower = 0,
       upper = real_of_int (Math_round (lthr * 0.5))\<rparr>,
      \<lparr>zone = 2, zone_name = ''Endurance'', lower = real_of_int (Math_round (lthr * 0.5)) + 1,
       upper = real_of_int (Math_round (lthr * 0.75))\<rparr>,
      \<lparr>zone = 3, zone_name = ''Tempo'', lower = real_of_int (Math_round (lthr * 0.75)) + 1,
       upper = lthr\<rparr>,
      \<lparr>zone = 4, zone_name = ''Threshold'', lower = lthr + 1,
       upper = real_of_int (Math_round (lthr * 1.1))\<rparr>,
      \<lparr>zone = 5, zone_name = ''Max'', lower = real_of_int (Math_round (lthr * 1.1)) + 1,
       upper = maxHr\<rparr>]"

definition summary_power_lines :: "real \<Rightarrow> real zone_line list" where
  "summary_power_lines ftp =
     [\<lparr>zone = 1, zone_name = ''Active'', lower = 0,
       upper = real_of_int (Math_round (ftp * 0.55))\<rparr>,
      \<lparr>zone = 2, zone_name = ''Endurance'', lower = real_of_int (Math_round (ftp * 0.55)) + 1,
       upper = real_of_int (Math_round (ftp * 0.75))\<rparr>,
      \<lparr>zone = 3, zone_name = ''Sweet Spot'', lower = real_of_int (Math_round (ftp * 0.75)) + 1,
       upper = ftp\<rparr>,
      \<lparr>zone = 4, zone_name = ''VO2 Max'', lower = ftp + 1,
       upper = real_of_int (Math_round (ftp * 1.2))\<rparr>,
      \<lparr>zone = 5, zone_name = ''Anaerobic'', lower = real_of_int (Math_round (ftp * 1.2)) + 1,
       upper = real_of_int (Math_round (ftp * 1.5))\<rparr>]"

definition ZonesTab_summary :: "ThresholdValues option \<Rightarrow> real zones_summary option" where
  "ZonesTab_summary tv =
     (let lthr = lthr_of tv; maxHr = maxHr_of tv; ftp = ftp_of tv in
      if lthr > 0 \<or> maxHr > 0 then
        Some \<lparr>hr_zones =
                 (if lthr > 0 \<or> maxHr > 0 then Some (summary_hr_lines lthr maxHr) else None),
              power_zones = (if ftp > 0 then Some (summary_power_lines ftp) else None)\<rparr>
      else None)"

section \<open>Streaming-chat reader\<close>

text \<open>
  A chunk of the response body is a \<^verbatim>\<open>Uint8Array\<close>, a list of bytes; a JavaScript string
  is a list of UTF-16 code units. \<open>js\<close> writes an ASCII literal as such a string and
  \<open>ascii\<close> as bytes.
\<close>

type_synonym byte = "8 word"
type_synonym jsstring = "16 word list"

definition js :: "string \<Rightarrow> jsstring" where
  "js s = map of_char s"

definition ascii :: "string \<Rightarrow> byte list" where
  "ascii s = map of_char s"

subsection \<open>\<^verbatim>\<open>TextDecoder\<close>\<close>

text \<open>
  \<^verbatim>\<open>new TextDecoder()\<close> decodes UTF-8, replaces malformed input by U+FFFD and strips a
  leading byte-order mark. The state of the UTF-8 decoder of the Encoding Standard:
\<close>

record utf8_decoder =
  code_point :: nat
  bytes_seen :: nat
  bytes_needed :: nat
  lower_boundary :: byte
  upper_boundary :: byte

definition utf8_init :: utf8_decoder where
  "utf8_init =
     \<lparr>code_point = 0, bytes_seen = 0, bytes_needed = 0,
      lower_boundary = 0x80, upper_boundary = 0xBF\<rparr>"

text \<open>
  The handler on a byte when no bytes are needed (step 3 of the standard): the code points
  emitted and the next state.
\<close>

definition utf8_lead :: "utf8_decoder \<Rightarrow> byte \<Rightarrow> nat list \<times> utf8_decoder" where
  "utf8_lead d b =
     (if b \<le> 0x7F then ([unat b], d)
      else if 0xC2 \<le> b \<and> b \<le> 0xDF then
        ([], d\<lparr>bytes_needed := 1, code_point := unat (b AND 0x1F)\<rparr>)
      else if 0xE0 \<le> b \<and> b \<le> 0xEF then
        ([], d\<lparr>lower_boundary := (if b = 0xE0 then 0xA0 else lower_boundary d),
               upper_boundary := (if b = 0xED then 0x9F else upper_boundary d),
               bytes_needed := 2, code_point := unat (b AND 0xF)\<rparr>)
      else if 0xF0 \<le> b \<and> b \<le> 0xF4 then
        ([], d\<lparr>lower_boundary := (if b = 0xF0 then 0x90 else lower_boundary d),
               upper_boundary := (if b = 0xF4 then 0x8F else upper_boundary d),
               bytes_needed := 3, code_point := unat (b AND 0x7)\<rparr>)
      else ([0xFFFD], d))"

text \<open>
  The handler on a byte. A byte outside the boundaries resets the decoder, is put back
  and an error is returned, which \<^verbatim>\<open>TextDecoder\<close> turns into U+FFFD; the byte is then read
  again, by the reset decoder.
\<close>

definition utf8_handler :: "utf8_decoder \<Rightarrow> byte \<Rightarrow> nat list \<times> utf8_decoder" where
  "utf8_handler d b =
     (if bytes_needed d = 0 then utf8_lead d b
      else if \<not> (lower_boundary d \<le> b \<and> b \<le> upper_boundary d) then
        (let (out, d') = utf8_lead utf8_init b in (0xFFFD # out, d'))
      else
        (let cp = push_bit 6 (code_point d) OR unat (b AND 0x3F);
             seen = bytes_seen d + 1
         in if seen \<noteq> bytes_needed d then
              ([], d\<lparr>lower_boundary := 0x80, upper_boundary := 0xBF, code_point := cp,
                     bytes_seen := seen\<rparr>)
            else ([cp], utf8_init)))"

text \<open>At the end of the queue, bytes still needed are an error.\<close>

fun utf8_run :: "utf8_decoder \<Rightarrow> byte list \<Rightarrow> nat list" where
  "utf8_run d [] = (if bytes_needed d \<noteq> 0 then [0xFFFD] else [])"
| "utf8_run d (b # bs) = (let (out, d') = utf8_handler d b in out @ utf8_run d' bs)"

definition strip_bom :: "nat list \<Rightarrow> nat list" where
  "strip_bom cps = (case cps of [] \<Rightarrow> [] | c # r \<Rightarrow> if c = 0xFEFF then r else cps)"

text \<open>A code point as UTF-16 code units.\<close>

definition utf16 :: "nat \<Rightarrow> jsstring" where
  "utf16 cp =
     (if cp < 0x10000 then [of_nat cp]
      else [of_nat (0xD800 + (cp - 0x10000) div 0x400),
            of_nat (0xDC00 + (cp - 0x10000) mod 0x400)])"

text \<open>
  \<^verbatim>\<open>decoder.decode(value)\<close>, without \<^verbatim>\<open>{ stream: true }\<close>: every call starts from a new
  decoder, flushes at the end of the chunk and strips a byte-order mark of its own.
\<close>

definition decode :: "byte list \<Rightarrow> jsstring" where
  "decode v = concat (map utf16 (strip_bom (utf8_run utf8_init v)))"

subsection \<open>\<^verbatim>\<open>JSON.parse\<close>\<close>

text \<open>
  A parsed JSON value. A number carries the exact value of its literal (\<^verbatim>\<open>JSON.parse\<close>
  rounds it to a double, which identifies more numbers); an object carries its members
  in the order of the text.
\<close>

datatype json =
    JNull | JBool bool | JNumber rat | JString jsstring
  | JArray "json list" | JObject "(jsstring \<times> json) list"

datatype token =
    TLBrace | TRBrace | TLBracket | TRBracket | TColon | TComma
  | TString jsstring | TNumber rat | TTrue | TFalse | TNull

text \<open>The characters of the JSON grammar, as code units.\<close>

definition cu :: "char \<Rightarrow> 16 word" where
  "cu c = of_char c"

definition is_json_ws :: "16 word \<Rightarrow> bool" where
  "is_json_ws c = (c = 0x20 \<or> c = 0x09 \<or> c = 0x0A \<or> c = 0x0D)"

definition is_dec :: "16 word \<Rightarrow> bool" where
  "is_dec c = (cu CHR ''0'' \<le> c \<and> c \<le> cu CHR ''9'')"

definition dec_value :: "jsstring \<Rightarrow> nat" where
  "dec_value ds = foldl (\<lambda>a c. a * 10 + (unat c - 48)) 0 ds"

definition hex_value :: "16 word \<Rightarrow> nat option" where
  "hex_value c =
     (if cu CHR ''0'' \<le> c \<and> c \<le> cu CHR ''9'' then Some (unat c - 48)
      else if cu CHR ''a'' \<le> c \<and> c \<le> cu CHR ''f'' then Some (unat c - 87)
      else if cu CHR ''A'' \<le> c \<and> c \<le> cu CHR ''F'' then Some (unat c - 55)
      else None)"

text \<open>
  The value of a number literal: an optional minus, an integer part without a leading
  zero (unless it is the single digit 0), an optional fraction, an optional exponent;
  \<open>None\<close> when the text is not a number of the grammar.
\<close>

definition pow10 :: "int \<Rightarrow> rat" where
  "pow10 e = (if 0 \<le> e then 10 ^ nat e else 1 / 10 ^ nat (- e))"

definition number_value :: "jsstring \<Rightarrow> rat option" where
  "number_value s =
     (let (neg, s1) = (case s of [] \<Rightarrow> (False, s)
                       | c # r \<Rightarrow> if c = cu CHR ''-'' then (True, r) else (False, s));
          ip = takeWhile is_dec s1;
          s2 = dropWhile is_dec s1;
          (fp, s3) = (case s2 of [] \<Rightarrow> (None, s2)
                      | c # r \<Rightarrow> if c = cu CHR ''.''
                                 then (Some (takeWhile is_dec r), dropWhile is_dec r)
                                 else (None, s2));
          (ex, s4) = (case s3 of [] \<Rightarrow> (None, s3)
                      | c # r \<Rightarrow>
                          if c = cu CHR ''e'' \<or> c = cu CHR ''E'' then
                            (case r of [] \<Rightarrow> (Some (False, []), r)
                             | g # r' \<Rightarrow>
                                 if g = cu CHR ''-'' then
                                   (Some (True, takeWhile is_dec r'), dropWhile is_dec r')
                                 else if g = cu CHR ''+'' then
                                   (Some (False, takeWhile is_dec r'), dropWhile is_dec r')
                                 else (Some (False, takeWhile is_dec r), dropWhile is_dec r))
                          else (None, s3))
      in if ip = [] \<or> (hd ip = cu CHR ''0'' \<and> length ip \<noteq> 1) \<or> fp = Some []
            \<or> (case ex of None \<Rightarrow> False | Some (eneg, ed) \<Rightarrow> ed = []) \<or> s4 \<noteq> []
         then None
         else Some
           ((if neg then - 1 else 1)
            * (of_nat (dec_value ip)
               + (case fp of None \<Rightarrow> 0
                  | Some fd \<Rightarrow> of_nat (dec_value fd) / 10 ^ length fd))
            * (case ex of None \<Rightarrow> 1
               | Some (eneg, ed) \<Rightarrow>
                   pow10 (if eneg then - int (dec_value ed) else int (dec_value ed)))))"

text \<open>
  The lexer reads one code unit at a time. Its mode says what it is inside of: nothing,
  a string (with the code units read so far), an escape, the four hex digits of a
  \<^verbatim>\<open>\u\<close> escape, a number, or one of the literals \<^verbatim>\<open>true\<close>, \<^verbatim>\<open>false\<close>, \<^verbatim>\<open>null\<close> (with the code
  units still expected).
\<close>

datatype lex_mode =
    LTop | LString jsstring | LEscape jsstring | LUnicode jsstring "nat list"
  | LNumber jsstring | LLiteral jsstring token

definition lex_top :: "16 word \<Rightarrow> (token list \<times> lex_mode) option" where
  "lex_top c =
     (if is_json_ws c then Some ([], LTop)
      else if c = cu CHR ''{'' then Some ([TLBrace], LTop)
      else if c = cu CHR ''}'' then Some ([TRBrace], LTop)
      else if c = cu CHR ''['' then Some ([TLBracket], LTop)
      else if c = cu CHR '']'' then Some ([TRBracket], LTop)
      else if c = cu CHR '':'' then Some ([TColon], LTop)
      else if c = cu CHR '','' then Some ([TComma], LTop)
      else if c = cu CHR 0x22 then Some ([], LString [])
      else if c = cu CHR ''-'' \<or> is_dec c then Some ([], LNumber [c])
      else if c = cu CHR ''t'' then Some ([], LLiteral (js ''rue'') TTrue)
      else if c = cu CHR ''f'' then Some ([], LLiteral (js ''alse'') TFalse)
      else if c = cu CHR ''n'' then Some ([], LLiteral (js ''ull'') TNull)
      else None)"

definition escape_char :: "16 word \<Rightarrow> 16 word option" where
  "escape_char c =
     (if c = cu CHR 0x22 \<or> c = cu CHR 0x5C \<or> c = cu CHR ''/'' then Some c
      else if c = cu CHR ''b'' then Some 0x08
      else if c = cu CHR ''f'' then Some 0x0C
      else if c = cu CHR ''n'' then Some 0x0A
      else if c = cu CHR ''r'' then Some 0x0D
      else if c = cu CHR ''t'' then Some 0x09
      else None)"

definition is_number_char :: "16 word \<Rightarrow> bool" where
  "is_number_char c =
     (is_dec c \<or> c = cu CHR ''-'' \<or> c = cu CHR ''+'' \<or> c = cu CHR ''.''
      \<or> c = cu CHR ''e'' \<or> c = cu CHR ''E'')"

definition lex_step :: "lex_mode \<Rightarrow> 16 word \<Rightarrow> (token list \<times> lex_mode) option" where
  "lex_step m c =
     (case m of
        LTop \<Rightarrow> lex_top c
      | LString acc \<Rightarrow>
          if c = cu CHR 0x22 then Some ([TString acc], LTop)
          else if c = cu CHR 0x5C then Some ([], LEscape acc)
          else if c < 0x20 then None
          else Some ([], LString (acc @ [c]))
      | LEscape acc \<Rightarrow>
          if c = cu CHR ''u'' then Some ([], LUnicode acc [])
          else (case escape_char c of
                  None \<Rightarrow> None
                | Some e \<Rightarrow> Some ([], LString (acc @ [e])))
      | LUnicode acc ds \<Rightarrow>
          (case hex_value c of
             None \<Rightarrow> None
           | Some h \<Rightarrow>
               if length ds = 3
               then Some ([], LString (acc @ [of_nat (foldl (\<lambda>a d. a * 16 + d) 0 (ds @ [h]))]))
               else Some ([], LUnicode acc (ds @ [h])))
      | LNumber acc \<Rightarrow>
          if is_number_char c then Some ([], LNumber (acc @ [c]))
          else (case number_value acc of
                  None \<Rightarrow> None
                | Some q \<Rightarrow>
                    (case lex_top c of
                       None \<Rightarrow> None
                     | Some (ts, m') \<Rightarrow> Some (TNumber q # ts, m')))
      | LLiteral rest t \<Rightarrow>
          (case rest of
             [] \<Rightarrow> None
           | r # rs \<Rightarrow>
               if c \<noteq> r then None
               else if rs = [] then Some ([t], LTop)
               else Some ([], LLiteral rs t)))"

definition lex_end :: "lex_mode \<Rightarrow> token list option" where
  "lex_end m =
     (case m of
        LTop \<Rightarrow> Some []
      | LNumber acc \<Rightarrow> map_option (\<lambda>q. [TNumber q]) (number_value acc)
      | _ \<Rightarrow> None)"

fun lex :: "lex_mode \<Rightarrow> jsstring \<Rightarrow> token list option" where
  "lex m [] = lex_end m"
| "lex m (c # cs) =
     (case lex_step m c of
        None \<Rightarrow> None
      | Some (ts, m') \<Rightarrow> map_option (\<lambda>r. ts @ r) (lex m' cs))"

text \<open>
  The parser reads one token at a time, with a stack of the arrays and objects that are
  open (and, above an object, the key whose value is being read) and what it expects
  next.
\<close>

datatype frame = FArray "json list" | FObject "(jsstring \<times> json) list" | FKey jsstring

datatype expect = EValue | EArrayFirst | EObjectFirst | EKey | EColon | EAfter | EDone json

definition complete :: "json \<Rightarrow> frame list \<Rightarrow> (expect \<times> frame list) option" where
  "complete v st =
     (case st of
        [] \<Rightarrow> Some (EDone v, [])
      | FArray xs # r \<Rightarrow> Some (EAfter, FArray (xs @ [v]) # r)
      | FKey k # FObject kvs # r \<Rightarrow> Some (EAfter, FObject (kvs @ [(k, v)]) # r)
      | _ \<Rightarrow> None)"

definition start_value :: "token \<Rightarrow> frame list \<Rightarrow> (expect \<times> frame list) option" where
  "start_value t st =
     (case t of
        TLBracket \<Rightarrow> Some (EArrayFirst, FArray [] # st)
      | TLBrace \<Rightarrow> Some (EObjectFirst, FObject [] # st)
      | TString s \<Rightarrow> complete (JString s) st
      | TNumber q \<Rightarrow> complete (JNumber q) st
      | TTrue \<Rightarrow> complete (JBool True) st
      | TFalse \<Rightarrow> complete (JBool False) st
      | TNull \<Rightarrow> complete JNull st
      | _ \<Rightarrow> None)"

definition close_array :: "frame list \<Rightarrow> (expect \<times> frame list) option" where
  "close_array st = (case st of FArray xs # r \<Rightarrow> complete (JArray xs) r | _ \<Rightarrow> None)"

definition close_object :: "frame list \<Rightarrow> (expect \<times> frame list) option" where
  "close_object st = (case st of FObject kvs # r \<Rightarrow> complete (JObject kvs) r | _ \<Rightarrow> None)"

definition parse_step :: "expect \<times> frame list \<Rightarrow> token \<Rightarrow> (expect \<times> frame list) option" where
  "parse_step = (\<lambda>(e, st) t.
     (case e of
        EValue \<Rightarrow> start_value t st
      | EArrayFirst \<Rightarrow> if t = TRBracket then close_array st else start_value t st
      | EObjectFirst \<Rightarrow>
          (case t of
             TRBrace \<Rightarrow> close_object st
           | TString k \<Rightarrow> Some (EColon, FKey k # st)
           | _ \<Rightarrow> None)
      | EKey \<Rightarrow> (case t of TString k \<Rightarrow> Some (EColon, FKey k # st) | _ \<Rightarrow> None)
      | EColon \<Rightarrow> if t = TColon then Some (EValue, st) else None
      | EAfter \<Rightarrow>
          (case t of
             TComma \<Rightarrow>
               (case st of
                  FArray xs # r \<Rightarrow> Some (EValue, st)
                | FObject kvs # r \<Rightarrow> Some (EKey, st)
                | _ \<Rightarrow> None)
           | TRBracket \<Rightarrow> close_array st
           | TRBrace \<Rightarrow> close_object st
           | _ \<Rightarrow> None)
      | EDone v \<Rightarrow> None))"

fun parse_tokens :: "expect \<times> frame list \<Rightarrow> token list \<Rightarrow> json option" where
  "parse_tokens s [] = (case fst s of EDone v \<Rightarrow> Some v | _ \<Rightarrow> None)"
| "parse_tokens s (t # ts) =
     (case parse_step s t of None \<Rightarrow> None | Some s' \<Rightarrow> parse_tokens s' ts)"

text \<open>\<^verbatim>\<open>JSON.parse(text)\<close>; \<open>None\<close> is the \<^verbatim>\<open>SyntaxError\<close> it throws.\<close>

definition JSON_parse :: "jsstring \<Rightarrow> json option" where
  "JSON_parse s =
     (case lex LTop s of None \<Rightarrow> None | Some ts \<Rightarrow> parse_tokens (EValue, []) ts)"

subsection \<open>The reader\<close>

text \<open>
  \<^verbatim>\<open>data.text\<close>: reading a property of \<^verbatim>\<open>null\<close> throws a \<^verbatim>\<open>TypeError\<close>; an object gives
  the value of its last member of that name, or \<^verbatim>\<open>undefined\<close>; a boolean, a number, a
  string or an array gives \<^verbatim>\<open>undefined\<close>. \<^verbatim>\<open>undefined\<close> is \<open>None\<close>.
\<close>

datatype js_error = SyntaxError | TypeError

fun get_text :: "json \<Rightarrow> js_error + json option" where
  "get_text JNull = Inl TypeError"
| "get_text (JObject kvs) = Inr (map_of (rev kvs) (js ''text''))"
| "get_text v = Inr None"

text \<open>
  The truth value of a JSON value in \<^verbatim>\<open>if (data.text)\<close>: \<^verbatim>\<open>null\<close>, \<^verbatim>\<open>false\<close>, zero and
  the empty string are false (and so is \<^verbatim>\<open>undefined\<close>). A number literal is zero as a
  double when its magnitude is at most \<open>2 ^ -1075\<close>, half the least positive double.
\<close>

fun truthy :: "json \<Rightarrow> bool" where
  "truthy JNull = False"
| "truthy (JBool b) = b"
| "truthy (JNumber q) = (\<bar>q\<bar> > 1 / 2 ^ 1075)"
| "truthy (JString s) = (s \<noteq> [])"
| "truthy (JArray xs) = True"
| "truthy (JObject kvs) = True"

text \<open>
  The body of the \<^verbatim>\<open>try\<close> block, with the calls of \<^verbatim>\<open>onChunk\<close> it makes as its result
  and the exception it throws as its error:
  \<^verbatim>\<open>
  const data = JSON.parse(line.slice(6));
  if (data.text) onChunk(data.text);
  \<close>
  The callback is the caller's; it is taken to return, and each call is recorded by its
  argument.
\<close>

definition try_line :: "jsstring \<Rightarrow> js_error + json list" where
  "try_line line =
     (case JSON_parse (drop 6 line) of
        None \<Rightarrow> Inl SyntaxError
      | Some data \<Rightarrow>
          (case get_text data of
             Inl e \<Rightarrow> Inl e
           | Inr None \<Rightarrow> Inr []
           | Inr (Some t) \<Rightarrow> Inr (if truthy t then [t] else [])))"

text \<open>
  One turn of the loop over the lines, with the calls of \<^verbatim>\<open>onChunk\<close> it makes:
  \<^verbatim>\<open>
  if (line.startsWith('data: ') && line !== 'data: [DONE]') {
    try { ... } catch {
      // ignore parse errors
    }
  }
  \<close>
\<close>

definition handle_line :: "jsstring \<Rightarrow> json list" where
  "handle_line line =
     (if prefix (js ''data: '') line \<and> line \<noteq> js ''data: [DONE]'' then
        (case try_line line of Inl e \<Rightarrow> [] | Inr calls \<Rightarrow> calls)
      else [])"

text \<open>\<^verbatim>\<open>chunk.split('\n')\<close>: the pieces between the separators, at least one.\<close>

fun split :: "'a \<Rightarrow> 'a list \<Rightarrow> 'a list list" where
  "split sep [] = [[]]"
| "split sep (c # cs) =
     (if c = sep then [] # split sep cs
      else (case split sep cs of [] \<Rightarrow> [[c]] | l # ls \<Rightarrow> (c # l) # ls))"

text \<open>
  The body of the \<^verbatim>\<open>while\<close> loop for one chunk read, and the loop itself over the chunks
  the stream delivers before it is done, with the calls of \<^verbatim>\<open>onChunk\<close> made so far:
  \<^verbatim>\<open>
  while (reader) {
    const { done, value } = await reader.read();
    if (done) break;
    const chunk = decoder.decode(value);
    const lines = chunk.split('\n');
    for (const line of lines) { ... }
  }
  \<close>
\<close>

definition process_chunk :: "byte list \<Rightarrow> json list" where
  "process_chunk v = concat (map handle_line (split 0x0A (decode v)))"

fun read_loop :: "byte list list \<Rightarrow> json list \<Rightarrow> json list" where
  "read_loop [] calls = calls"
| "read_loop (v # rest) calls = read_loop rest (calls @ process_chunk v)"

text \<open>
  \<^verbatim>\<open>chatStream\<close> on a response whose body delivers the given chunks: the calls of
  \<^verbatim>\<open>onChunk\<close>, in order.
\<close>

definition chatStream_calls :: "byte list list \<Rightarrow> json list" where
  "chatStream_calls chunks = read_loop chunks []"

text \<open>
  \<^verbatim>\<open>chatStream\<close> as a whole: the request is issued, then the body is read. (A response
  without a body has no reader, and the loop is not entered: no chunks.)
\<close>

definition chatStream :: "byte list list \<Rightarrow> world \<Rightarrow> json list \<times> world" where
  "chatStream chunks w = (chatStream_calls chunks, send ChatStream w)"

text \<open>A chunk whose decoded text begins with U+FEFF, a byte-order mark.\<close>

definition decodes_to_bom :: "byte list \<Rightarrow> bool" where
  "decodes_to_bom v = (case utf8_run utf8_init v of [] \<Rightarrow> False | c # r \<Rightarrow> c = 0xFEFF)"

text \<open>A property of the first element of a list of code points, false of the empty list.\<close>

definition first_is :: "(nat \<Rightarrow> bool) \<Rightarrow> nat list \<Rightarrow> bool" where
  "first_is P cps = (case cps of [] \<Rightarrow> False | c # r \<Rightarrow> P c)"

text \<open>
  The decoder states that occur: when no bytes are needed the state is the initial one,
  and the lower boundary is never below \<open>0x80\<close>.
\<close>

definition utf8_wf :: "utf8_decoder \<Rightarrow> bool" where
  "utf8_wf d = ((bytes_needed d = 0 \<longrightarrow> d = utf8_init) \<and> 0x80 \<le> lower_boundary d)"

text \<open>
  Chunks cut at line ends: every chunk but the last ends with a newline byte, and no
  chunk after the first begins with a byte-order mark.
\<close>

definition line_aligned :: "byte list list \<Rightarrow> bool" where
  "line_aligned chunks =
     ((\<forall>v \<in> set (butlast chunks). v \<noteq> [] \<and> last v = 0x0A)
      \<and> (\<forall>v \<in> set (tl chunks). \<not> decodes_to_bom v))"

section \<open>Properties of the training-status classifier\<close>

text \<open>
  C4. For every real TSB value \<open>t\<close> the classifier returns exactly one of the five
  categories, and each category is returned on exactly its band: Very Fatigued iff
  \<open>t < -30\<close>; Training Hard iff \<open>-30 \<le> t < -10\<close>; Neutral iff \<open>-10 \<le> t < 5\<close>; Fresh iff
  \<open>5 \<le> t < 15\<close>; Very Fresh iff \<open>15 \<le> t\<close>. The bands cover the real line without gap or
  overlap, and each boundary value belongs to the higher band: \<open>-30\<close> is Training Hard,
  \<open>-10\<close> is Neutral (not fatigued), \<open>5\<close> is Fresh and \<open>15\<close> is Very Fresh.
\<close>

theorem formStatus_bands:
  "(text' (formStatus t) = ''Very Fatigued'') = (t < -30)
   \<and> (text' (formStatus t) = ''Training Hard'') = (-30 \<le> t \<and> t < -10)
   \<and> (text' (formStatus t) = ''Neutral'') = (-10 \<le> t \<and> t < 5)
   \<and> (text' (formStatus t) = ''Fresh'') = (5 \<le> t \<and> t < 15)
   \<and> (text' (formStatus t) = ''Very Fresh'') = (15 \<le> t)
   \<and> text' (formStatus (-30)) = ''Training Hard''
   \<and> text' (formStatus (-10)) = ''Neutral''
   \<and> text' (formStatus 5) = ''Fresh''
   \<and> text' (formStatus 15) = ''Very Fresh''"
  by (simp add: formStatus_def)

section \<open>Properties of the API client\<close>

lemma config_no_auth: "headers (config_of op) ''Authorization'' = None"
  by (cases op) (simp_all add: mk_request_def)

lemma interceptor_header:
  "headers (interceptor ls (config_of op)) ''Authorization'' =
     (case ls ''token'' of
        None \<Rightarrow> None
      | Some token \<Rightarrow> if token \<noteq> [] then Some (''Bearer '' @ token) else None)"
  by (simp add: interceptor_def config_no_auth split: option.split)

text \<open>
  Every operation that goes through the axios instance carries \<^verbatim>\<open>Bearer <token>\<close> when a
  non-empty token is stored and no \<^verbatim>\<open>Authorization\<close> header otherwise.
\<close>

lemma axios_operations_uniform:
  "op \<noteq> ChatStream \<Longrightarrow>
   headers (outbound ls op) ''Authorization'' =
     (case ls ''token'' of
        None \<Rightarrow> None
      | Some token \<Rightarrow> if token \<noteq> [] then Some (''Bearer '' @ token) else None)"
  by (simp add: outbound_def interceptor_header)

lemma chatStream_with_token:
  "ls ''token'' = Some token \<Longrightarrow>
   headers (outbound ls ChatStream) ''Authorization'' = Some (''Bearer '' @ token)"
  by (simp add: outbound_def chatStream_request_def template_string_def)

text \<open>
  C6. Every outbound request carries \<^verbatim>\<open>Authorization: Bearer <token>\<close> when a token is
  stored under the key \<^verbatim>\<open>token\<close>, and no \<^verbatim>\<open>Authorization\<close> header when none is. The
  streaming-chat request breaks the second half: with an empty local storage it is sent
  with the header \<^verbatim>\<open>Authorization: Bearer null\<close>.
\<close>

theorem chatStream_sends_bearer_null:
  "headers (outbound Map.empty ChatStream) ''Authorization'' = Some ''Bearer null''"
  by (simp add: outbound_def chatStream_request_def template_string_def)

section \<open>Properties of the auth session holder\<close>

text \<open>
  C8. At application start (user null, loading true): if no token is stored (or the
  stored token is the empty string) the session resolves to user null and loading false,
  and the world is unchanged, so no request is made, whatever the server would answer.
  If a non-empty token is stored and the current-user fetch fails, the session resolves
  to user null and loading false, the token is removed from the local storage, and
  exactly one request, the current-user fetch, has been added to the log: there is no
  retry.
\<close>

theorem bootstrap_resolves_logged_out:
  "((localStorage w ''token'' = None \<or> localStorage w ''token'' = Some [])
      \<longrightarrow> bootstrap me (auth_init, w) = (\<lparr>user = None, loading = False\<rparr>, w))
   \<and> (localStorage w ''token'' = Some t \<and> t \<noteq> []
      \<longrightarrow> bootstrap (Rejected e) (auth_init, w) =
            (\<lparr>user = None, loading = False\<rparr>,
             w\<lparr>localStorage := (localStorage w)(''token'' := None),
               requests := requests w @ [outbound (localStorage w) GetMe]\<rparr>))"
  by (auto simp add: bootstrap_def auth_init_def send_def Let_def)

theorem bootstrap_resolves_logged_out_witness:
  "bootstrap (Rejected ''401'') (auth_init, world0) = (\<lparr>user = None, loading = False\<rparr>, world0)
   \<and> bootstrap (Rejected ''401'') (auth_init, world0\<lparr>localStorage := [''token'' \<mapsto> ''abc'']\<rparr>) =
       (\<lparr>user = None, loading = False\<rparr>,
        world0\<lparr>localStorage := Map.empty,
          requests := [\<lparr>http_method = ''GET'', url = ''/api/v1/auth/me'',
                        headers = [''Authorization'' \<mapsto> ''Bearer abc'']\<rparr>]\<rparr>)"
  using bootstrap_resolves_logged_out [where w = world0 and me = "Rejected ''401''"]
    bootstrap_resolves_logged_out
      [where w = "world0\<lparr>localStorage := [''token'' \<mapsto> ''abc'']\<rparr>" and t = "''abc''"
         and e = "''401''"]
  by (simp add: world0_def outbound_def interceptor_def mk_request_def)

text \<open>
  C10. When the credential exchange of \<^verbatim>\<open>login\<close> or \<^verbatim>\<open>register\<close> succeeds and the
  current-user fetch that follows fails, the returned promise rejects, the token stays
  in the local storage, the session state is untouched (a null user stays null) and
  nothing is pushed to the router. The token is not rolled back: the startup path run
  on a failed fetch in that world would remove it (when it is not empty).
\<close>

theorem exchange_keeps_token:
  "(case login (Resolved tok) (Rejected e) (a, w) of
      (res, a', w') \<Rightarrow>
        res = Rejected e \<and> localStorage w' ''token'' = Some (setItem_string tok)
        \<and> a' = a \<and> (user a = None \<longrightarrow> user a' = None) \<and> pushed w' = pushed w
        \<and> (setItem_string tok \<noteq> [] \<longrightarrow>
             localStorage (snd (bootstrap (Rejected e) (a', w'))) ''token'' = None))
   \<and> (case register (Resolved tok) (Rejected e) (a, w) of
      (res, a', w') \<Rightarrow>
        res = Rejected e \<and> localStorage w' ''token'' = Some (setItem_string tok)
        \<and> a' = a \<and> (user a = None \<longrightarrow> user a' = None) \<and> pushed w' = pushed w
        \<and> (setItem_string tok \<noteq> [] \<longrightarrow>
             localStorage (snd (bootstrap (Rejected e) (a', w'))) ''token'' = None))"
  by (simp add: login_def register_def exchange_def send_def Let_def bootstrap_def)

theorem exchange_keeps_token_witness:
  "login (Resolved (Some ''abc'')) (Rejected ''500'') (auth_init, world0) =
     (Rejected ''500'', auth_init,
      world0\<lparr>localStorage := [''token'' \<mapsto> ''abc''],
        requests := [outbound Map.empty Login, outbound [''token'' \<mapsto> ''abc''] GetMe]\<rparr>)
   \<and> user auth_init = None
   \<and> localStorage (snd (bootstrap (Rejected ''500'')
        (auth_init, world0\<lparr>localStorage := [''token'' \<mapsto> ''abc''],
           requests := [outbound Map.empty Login, outbound [''token'' \<mapsto> ''abc''] GetMe]\<rparr>)))
        ''token'' = None"
  using exchange_keeps_token
      [where tok = "Some ''abc''" and e = "''500''" and a = auth_init and w = world0]
  by (simp add: login_def exchange_def send_def Let_def setItem_string_def world0_def
      auth_init_def)

section \<open>Properties of the upload page\<close>

lemma toLowerCase_char_dot: "(toLowerCase_char c = CHR ''.'') = (c = CHR ''.'')"
  by (simp add: toLowerCase_char_def split: option.split)

lemma toLowerCase_char_f: "(toLowerCase_char c = CHR ''f'') = (c = CHR ''f'' \<or> c = CHR ''F'')"
  by (simp add: toLowerCase_char_def split: option.split)

lemma toLowerCase_char_i: "(toLowerCase_char c = CHR ''i'') = (c = CHR ''i'' \<or> c = CHR ''I'')"
  by (simp add: toLowerCase_char_def split: option.split)

lemma toLowerCase_char_t: "(toLowerCase_char c = CHR ''t'') = (c = CHR ''t'' \<or> c = CHR ''T'')"
  by (simp add: toLowerCase_char_def split: option.split)

text \<open>
  The test of \<^verbatim>\<open>handleFile\<close> holds exactly of the names whose last four characters are
  a dot and the letters f, i, t in either case.
\<close>

lemma endsWith_fit_iff:
  "endsWith (toLowerCase s) ''.fit'' =
     (\<exists>p f i t. s = p @ [CHR ''.'', f, i, t]
        \<and> (f = CHR ''f'' \<or> f = CHR ''F'') \<and> (i = CHR ''i'' \<or> i = CHR ''I'')
        \<and> (t = CHR ''t'' \<or> t = CHR ''T''))"
proof
  assume "endsWith (toLowerCase s) ''.fit''"
  then obtain zs where "map toLowerCase_char s = zs @ ''.fit''"
    by (auto simp: endsWith_def toLowerCase_def suffix_def)
  then obtain p e where s: "s = p @ e" and e: "map toLowerCase_char e = ''.fit''"
    by (auto simp: map_eq_append_conv)
  from e obtain d f i t where "e = [d, f, i, t]"
    and "toLowerCase_char d = CHR ''.''" "toLowerCase_char f = CHR ''f''"
        "toLowerCase_char i = CHR ''i''" "toLowerCase_char t = CHR ''t''"
    by (auto simp: map_eq_Cons_conv)
  with s show "\<exists>p f i t. s = p @ [CHR ''.'', f, i, t]
        \<and> (f = CHR ''f'' \<or> f = CHR ''F'') \<and> (i = CHR ''i'' \<or> i = CHR ''I'')
        \<and> (t = CHR ''t'' \<or> t = CHR ''T'')"
    by (auto simp: toLowerCase_char_dot toLowerCase_char_f toLowerCase_char_i toLowerCase_char_t)
next
  assume "\<exists>p f i t. s = p @ [CHR ''.'', f, i, t]
        \<and> (f = CHR ''f'' \<or> f = CHR ''F'') \<and> (i = CHR ''i'' \<or> i = CHR ''I'')
        \<and> (t = CHR ''t'' \<or> t = CHR ''T'')"
  then obtain p f i t where s: "s = p @ [CHR ''.'', f, i, t]"
    and l: "toLowerCase_char f = CHR ''f''" "toLowerCase_char i = CHR ''i''"
           "toLowerCase_char t = CHR ''t''"
    by (auto simp: toLowerCase_char_f toLowerCase_char_i toLowerCase_char_t)
  have "toLowerCase s = map toLowerCase_char p @ ''.fit''"
    using l by (simp add: s toLowerCase_def toLowerCase_char_dot)
  then show "endsWith (toLowerCase s) ''.fit''"
    by (simp add: endsWith_def suffix_def)
qed

text \<open>
  C9. A file whose name does not end in \<^verbatim>\<open>.fit\<close>, in any mix of upper and lower case,
  is rejected by \<^verbatim>\<open>handleFile\<close>: the page shows the error result, and the world is
  unchanged, so no upload request is issued, whatever the server would answer.
\<close>

theorem handleFile_rejects_other_names:
  "\<not> (\<exists>p f i t. file_name = p @ [CHR ''.'', f, i, t]
        \<and> (f = CHR ''f'' \<or> f = CHR ''F'') \<and> (i = CHR ''i'' \<or> i = CHR ''I'')
        \<and> (t = CHR ''t'' \<or> t = CHR ''T''))
   \<Longrightarrow> handleFile file_name resp (r, w) =
         (Some \<lparr>rtype = error, message = ''Only .FIT files are supported.'', activityId = None\<rparr>, w)"
  by (simp add: handleFile_def endsWith_fit_iff)

theorem handleFile_rejects_witness:
  "handleFile ''ride.gpx''
     (Resolved \<lparr>duplicates = False, activity_id = None, data_id = Some ''a1''\<rparr>) (None, world0) =
     (Some \<lparr>rtype = error, message = ''Only .FIT files are supported.'', activityId = None\<rparr>,
      world0)
   \<and> requests world0 = []"
  using handleFile_rejects_other_names [of "''ride.gpx''"
      "Resolved \<lparr>duplicates = False, activity_id = None, data_id = Some ''a1''\<rparr>" None world0]
  by (simp add: world0_def)

text \<open>A name that ends in \<^verbatim>\<open>.FIT\<close> does reach the API client.\<close>

lemma handleFile_accepts_fit:
  "handleFile ''Ride.FIT'' (Rejected e) (None, world0) =
     (Some \<lparr>rtype = error, message = (if e \<noteq> [] then e else ''Upload failed. Please try again.''),
        activityId = None\<rparr>,
      world0\<lparr>requests := [outbound Map.empty UploadFitFile]\<rparr>)"
  by (simp add: handleFile_def endsWith_def toLowerCase_def toLowerCase_char_def
      uploadMutation_mutate_def Let_def send_def world0_def suffix_def)

text \<open>
  A response that reports duplicates and carries no \<^verbatim>\<open>activity\<close> makes \<^verbatim>\<open>onSuccess\<close> throw;
  the page then shows the message of the error.
\<close>

lemma handleFile_duplicate_without_activity:
  "fst (handleFile ''ride.fit''
     (Resolved \<lparr>duplicates = True, activity_id = None, data_id = Some ''a1''\<rparr>) (None, world0)) =
     Some \<lparr>rtype = error, message = TypeError_message, activityId = None\<rparr>"
  by (simp add: handleFile_def endsWith_def toLowerCase_def toLowerCase_char_def
      uploadMutation_mutate_def Let_def suffix_def TypeError_message_def)

section \<open>Properties of the mutations\<close>

lemma cache_send [simp]: "cache (send op w) = cache w"
  by (simp add: send_def)






section \<open>Properties of the zone preview\<close>

text \<open>
  Each literal is the double nearest to its decimal value: three are that value, and the
  others have a 53-bit numerator and lie within half a unit of its last bit.
\<close>

lemma literal_values:
  "literal_value lit_0_5 = 0.5" "literal_value lit_0_75 = 0.75" "literal_value lit_1_5 = 1.5"
  "2 ^ 52 \<le> fst lit_1_1 \<and> fst lit_1_1 < 2 ^ 53
     \<and> 1.1 < literal_value lit_1_1 \<and> literal_value lit_1_1 - 1.1 < 1 / 2 ^ 53"
  "2 ^ 52 \<le> fst lit_0_55 \<and> fst lit_0_55 < 2 ^ 53
     \<and> 0.55 < literal_value lit_0_55 \<and> literal_value lit_0_55 - 0.55 < 1 / 2 ^ 54"
  "2 ^ 52 \<le> fst lit_1_2 \<and> fst lit_1_2 < 2 ^ 53
     \<and> literal_value lit_1_2 < 1.2 \<and> 1.2 - literal_value lit_1_2 < 1 / 2 ^ 53"
  by (simp_all add: literal_value_def lit_0_5_def lit_0_75_def lit_1_5_def lit_1_1_def
      lit_0_55_def lit_1_2_def)

text \<open>Rounding to 53 significant bits: small integers stay, and a larger one moves to
  one of the two neighbours that are multiples of the power of two rounded away.\<close>

lemma bitlen_le: "0 \<le> a \<Longrightarrow> a < 2 ^ k \<Longrightarrow> bitlen a \<le> int k"
  by (simp add: bitlen_def floorlog_le_iff nat_less_iff)

lemma round53_small: "\<bar>N\<bar> < 2 ^ 53 \<Longrightarrow> round53 N = N"
  using bitlen_le [of "\<bar>N\<bar>" 53] by (simp add: round53_def Let_def)

lemma double_of_small: "\<bar>N\<bar> < 2 ^ 53 \<Longrightarrow> double_of N = Num N"
  by (simp add: double_of_def round53_small)

lemma round53_bracket:
  assumes "0 \<le> N" "N < 2 ^ (53 + j)"
  shows "\<exists>e q. 0 < e \<and> e dvd 2 ^ j \<and> e \<le> 2 ^ j \<and> q * e \<le> N \<and> N < (q + 1) * e
           \<and> (round53 N = q * e \<or> round53 N = (q + 1) * e)
           \<and> 2 * round53 N \<le> 2 * N + e"
proof (cases "bitlen \<bar>N\<bar> \<le> 53")
  case True
  then have "round53 N = N" by (simp add: round53_def Let_def)
  then show ?thesis
    by (intro exI [of _ 1] exI [of _ N]) simp
next
  case False
  define k where "k = nat (bitlen \<bar>N\<bar> - 53)"
  define e :: int where "e = 2 ^ k"
  have b: "bitlen \<bar>N\<bar> \<le> int (53 + j)" using bitlen_le [of "\<bar>N\<bar>" "53 + j"] assms by simp
  then have k: "k \<le> j" by (simp add: k_def)
  have N: "\<bar>N\<bar> = N" "sgn N = 1" using assms False by (auto simp: sgn_if)
  have e0: "0 < e" by (simp add: e_def)
  have ed: "e dvd 2 ^ j" unfolding e_def using k by (rule le_imp_power_dvd)
  have el: "e \<le> 2 ^ j" unfolding e_def using k by (intro power_increasing) simp_all
  have dm: "N = N div e * e + N mod e" by simp
  have m: "0 \<le> N mod e" "N mod e < e" using e0 by simp_all
  have q1: "N div e * e \<le> N" using dm m by linarith
  have ex: "(N div e + 1) * e = N div e * e + e" by (simp add: algebra_simps)
  have q2: "N < (N div e + 1) * e" unfolding ex using dm m by linarith
  have r: "round53 N =
      (if 2 * (N mod e) < e then N div e
       else if e < 2 * (N mod e) then N div e + 1
       else if even (N div e) then N div e else N div e + 1) * e"
    using False by (simp add: round53_def Let_def N e_def k_def)
  have r1: "round53 N = N div e * e \<or> round53 N = (N div e + 1) * e"
    unfolding r by simp
  have r2: "2 * round53 N \<le> 2 * N + e"
  proof (cases "2 * (N mod e) < e")
    case True
    then have "round53 N = N div e * e" unfolding r by simp
    with q1 e0 show ?thesis by simp
  next
    case False
    have "round53 N \<le> (N div e + 1) * e" using r1 ex e0 by auto
    with False ex dm show ?thesis by linarith
  qed
  from e0 ed el q1 q2 r1 r2 show ?thesis by blast
qed

text \<open>
  So rounding does not cross a multiple of \<open>2 ^ k\<close> that is at a distance of more than
  half the power of two rounded away.
\<close>

lemma round53_between:
  assumes N: "0 \<le> N" "N < 2 ^ (53 + j)" and k: "j \<le> k"
    and lo: "A * 2 ^ k \<le> N" and hi: "2 * N + 2 ^ j < 2 * (B * 2 ^ k)"
  shows "A * 2 ^ k \<le> round53 N \<and> round53 N < B * 2 ^ k"
proof -
  from round53_bracket [OF N] obtain e q where e: "0 < e" "e dvd 2 ^ j" "e \<le> 2 ^ j"
    and q: "q * e \<le> N" "N < (q + 1) * e"
    and r: "round53 N = q * e \<or> round53 N = (q + 1) * e"
    and h: "2 * round53 N \<le> 2 * N + e"
    by blast
  have "(2::int) ^ j dvd 2 ^ k" using k by (rule le_imp_power_dvd)
  with e(2) have "e dvd 2 ^ k" by (rule dvd_trans)
  then obtain t where t: "2 ^ k = e * t" by (rule dvdE)
  have "A * t * e \<le> N" using lo by (simp add: t mult_ac)
  with q(2) have "A * t * e < (q + 1) * e" by simp
  with e(1) have "A * t < q + 1" by (simp add: mult_less_cancel_right)
  then have "A * t \<le> q" by simp
  with e(1) have "A * t * e \<le> q * e" by (simp add: mult_right_mono)
  then have l: "A * 2 ^ k \<le> q * e" by (simp add: t mult_ac)
  have ex: "(q + 1) * e = q * e + e" by (simp add: algebra_simps)
  from l r ex e(1) have 1: "A * 2 ^ k \<le> round53 N" by auto
  from h e(3) hi have 2: "round53 N < B * 2 ^ k" by linarith
  from 1 2 show ?thesis ..
qed

lemma round53_range:
  assumes "0 \<le> N" "N < 2 ^ 102"
  shows "0 \<le> round53 N \<and> round53 N < 2 ^ 103"
proof -
  have "0 * 2 ^ 49 \<le> round53 N \<and> round53 N < 2 ^ 54 * 2 ^ 49"
    using assms by (intro round53_between [where j = 49]) simp_all
  then show ?thesis by simp
qed

lemma Math_round_between:
  assumes "(2 * R - 1) * 2 ^ k \<le> M" "M < (2 * R + 1) * 2 ^ k"
  shows "Math_round (real_of_int M / 2 ^ Suc k) = R"
proof -
  have p: "(0::real) < 2 ^ Suc k" by simp
  have "real_of_int ((2 * R - 1) * 2 ^ k) \<le> real_of_int M"
    using assms(1) by (simp only: of_int_le_iff)
  then have "(real_of_int R - 1 / 2) * 2 ^ Suc k \<le> real_of_int M"
    by (simp add: algebra_simps)
  then have 1: "real_of_int R - 1 / 2 \<le> real_of_int M / 2 ^ Suc k"
    using p by (simp only: pos_le_divide_eq)
  have "real_of_int M < real_of_int ((2 * R + 1) * 2 ^ k)"
    using assms(2) by (simp only: of_int_less_iff)
  then have "real_of_int M < (real_of_int R + 1 / 2) * 2 ^ Suc k"
    by (simp add: algebra_simps)
  then have 2: "real_of_int M / 2 ^ Suc k < real_of_int R + 1 / 2"
    using p by (simp only: pos_divide_less_eq)
  show ?thesis
    unfolding Math_round_def using 1 2 by (intro floor_unique) simp_all
qed

text \<open>The rounded value \<open>R\<close> of a fraction \<open>a * n / d\<close>, in integers.\<close>

lemma round_bounds:
  fixes a d n R :: int
  assumes d: "0 < d" and R: "R = round (real_of_int a * real_of_int n / real_of_int d)"
  shows "2 * d * R \<le> 2 * a * n + d" "2 * a * n + d < 2 * d * R + 2 * d"
proof -
  let ?x = "real_of_int a * real_of_int n / real_of_int d"
  have dr: "0 < real_of_int d" using d by simp
  have "real_of_int R \<le> ?x + 1 / 2" "?x + 1 / 2 < real_of_int R + 1"
    unfolding R round_def by linarith+
  then have "real_of_int R * real_of_int d \<le> (?x + 1 / 2) * real_of_int d"
    "(?x + 1 / 2) * real_of_int d < (real_of_int R + 1) * real_of_int d"
    using dr by (simp_all only: mult_le_cancel_right_pos mult_less_cancel_right_pos)
  then have "real_of_int (2 * d * R) \<le> real_of_int (2 * a * n + d)"
    "real_of_int (2 * a * n + d) < real_of_int (2 * d * R + 2 * d)"
    using dr by (simp_all add: algebra_simps)
  then show "2 * d * R \<le> 2 * a * n + d" "2 * a * n + d < 2 * d * R + 2 * d"
    by (simp_all only: of_int_le_iff of_int_less_iff)
qed

text \<open>Both sides of these inequalities are even.\<close>

lemma even_gap:
  fixes n R :: int
  shows "22 * n + 10 < 20 * R + 20 \<Longrightarrow> 22 * n + 12 \<le> 20 * R + 20"
    "22 * n + 20 < 40 * R + 40 \<Longrightarrow> 22 * n + 22 \<le> 40 * R + 40"
    "10 * R \<le> 12 * n + 5 \<Longrightarrow> 10 * R \<le> 12 * n + 4"
  by presburger+

text \<open>
  The three products with a literal that is not a double. For a threshold up to
  \<open>5 * 10 ^ 14\<close> the double product rounds to the same integer as the exact product with the
  decimal value. The product with the literal differs from the product with the decimal
  value by less than 1/20; the latter, when it is not a half, lies at least 1/10 below
  the next half for 1.1, 1/20 for 0.55, and at least 1/10 above the half before it for
  1.2, whose literal lies below its decimal value; when it is a half, the product with
  the literal of 1.1 or 0.55 lies above it, and a product with 1.2 is never a half.
  Rounding to 53 bits moves the product by at most 1/32 (1/64 for 0.55, 1/16 for 1.2),
  less than what is left of that distance, and does not cross a half.
\<close>

lemma product_1_1:
  fixes n :: int
  assumes n: "0 \<le> n" "n \<le> 5 * 10 ^ 14"
  shows "Math_round (real_of_int (round53 (n * 0x1199999999999A)) / 2 ^ 52) =
           round (1.1 * real_of_int n)"
proof -
  define R where "R = round (1.1 * real_of_int n)"
  have "R = round (real_of_int 11 * real_of_int n / real_of_int 10)" by (simp add: R_def)
  from round_bounds [OF _ this] have b: "20 * R \<le> 22 * n + 10" "22 * n + 10 < 20 * R + 20"
    by simp_all
  have N: "0 \<le> n * 0x1199999999999A" "n * 0x1199999999999A < 2 ^ (53 + 48)" using n by simp_all
  have lo: "(2 * R - 1) * 2 ^ 51 \<le> n * 0x1199999999999A" using b n by simp
  have hi: "2 * (n * 0x1199999999999A) + 2 ^ 48 < 2 * ((2 * R + 1) * 2 ^ 51)"
    using even_gap(1) [OF b(2)] n by simp
  from round53_between [OF N _ lo hi]
  have "(2 * R - 1) * 2 ^ 51 \<le> round53 (n * 0x1199999999999A)"
    "round53 (n * 0x1199999999999A) < (2 * R + 1) * 2 ^ 51" by simp_all
  from Math_round_between [OF this] show ?thesis by (simp add: R_def)
qed

lemma product_0_55:
  fixes n :: int
  assumes n: "0 \<le> n" "n \<le> 5 * 10 ^ 14"
  shows "Math_round (real_of_int (round53 (n * 0x1199999999999A)) / 2 ^ 53) =
           round (0.55 * real_of_int n)"
proof -
  define R where "R = round (0.55 * real_of_int n)"
  have "R = round (real_of_int 11 * real_of_int n / real_of_int 20)" by (simp add: R_def)
  from round_bounds [OF _ this] have b: "40 * R \<le> 22 * n + 20" "22 * n + 20 < 40 * R + 40"
    by simp_all
  have N: "0 \<le> n * 0x1199999999999A" "n * 0x1199999999999A < 2 ^ (53 + 48)" using n by simp_all
  have lo: "(2 * R - 1) * 2 ^ 52 \<le> n * 0x1199999999999A" using b n by simp
  have hi: "2 * (n * 0x1199999999999A) + 2 ^ 48 < 2 * ((2 * R + 1) * 2 ^ 52)"
    using even_gap(2) [OF b(2)] n by simp
  from round53_between [OF N _ lo hi]
  have "(2 * R - 1) * 2 ^ 52 \<le> round53 (n * 0x1199999999999A)"
    "round53 (n * 0x1199999999999A) < (2 * R + 1) * 2 ^ 52" by simp_all
  from Math_round_between [OF this] show ?thesis by (simp add: R_def)
qed


lemma product_1_2:
  fixes n :: int
  assumes n: "0 \<le> n" "n \<le> 5 * 10 ^ 14"
  shows "Math_round (real_of_int (round53 (n * 0x13333333333333)) / 2 ^ 52) =
           round (1.2 * real_of_int n)"
proof -
  define R where "R = round (1.2 * real_of_int n)"
  have "R = round (real_of_int 6 * real_of_int n / real_of_int 5)" by (simp add: R_def)
  from round_bounds [OF _ this] have b: "10 * R \<le> 12 * n + 5" "12 * n + 5 < 10 * R + 10"
    by simp_all
  note b' = even_gap(3) [OF b(1)]
  have N: "0 \<le> n * 0x13333333333333" "n * 0x13333333333333 < 2 ^ (53 + 49)" using n by simp_all
  have lo: "(2 * R - 1) * 2 ^ 51 \<le> n * 0x13333333333333" using b' n by simp
  have hi: "2 * (n * 0x13333333333333) + 2 ^ 49 < 2 * ((2 * R + 1) * 2 ^ 51)" using b n by simp
  from round53_between [OF N _ lo hi]
  have "(2 * R - 1) * 2 ^ 51 \<le> round53 (n * 0x13333333333333)"
    "round53 (n * 0x13333333333333) < (2 * R + 1) * 2 ^ 51" by simp_all
  from Math_round_between [OF this] show ?thesis by (simp add: R_def)
qed

text \<open>A product of moderate size is finite.\<close>

lemma times_literal_finite:
  assumes "0 \<le> n * K" "n * K < 2 ^ 102"
  shows "Math_round_number (times_literal (Num n) (K, s)) =
           Num (Math_round (real_of_int (round53 (n * K)) / 2 ^ s))"
proof -
  from round53_range [OF assms] have "\<bar>round53 (n * K)\<bar> < 2 ^ 103" by simp
  also have "(2::int) ^ 103 \<le> 2 ^ (1024 + s)" by (intro power_increasing) simp_all
  finally have "(2 ^ (1024 + s) \<le> \<bar>round53 (n * K)\<bar>) = False" by simp
  then show ?thesis
    by (simp only: times_literal_def Math_round_number_def number.case Let_def fst_conv
        snd_conv if_False)
qed

text \<open>
  \<^verbatim>\<open>Math.round(x * c)\<close> for an integer \<open>x\<close> from 0 to \<open>5 * 10 ^ 14\<close> and each of the six
  literals.
\<close>

lemma scaled_values:
  assumes p: "parseInt s = Num n" and n: "0 \<le> n" "n \<le> 5 * 10 ^ 14"
  shows "scaled s lit_0_5 = Num (round (0.5 * real_of_int n))"
    "scaled s lit_0_55 = Num (round (0.55 * real_of_int n))"
    "scaled s lit_0_75 = Num (round (0.75 * real_of_int n))"
    "scaled s lit_1_1 = Num (round (1.1 * real_of_int n))"
    "scaled s lit_1_2 = Num (round (1.2 * real_of_int n))"
    "scaled s lit_1_5 = Num (round (1.5 * real_of_int n))"
proof -
  have r: "\<And>x. Math_round x = round x"
    by (simp add: Math_round_def round_def)
  have s1: "round53 (n * 1) = n" "round53 (n * 3) = n * 3"
    using n by (simp_all add: round53_small)
  have N: "0 \<le> n * 0x1199999999999A" "n * 0x1199999999999A < 2 ^ 102"
    "0 \<le> n * 0x13333333333333" "n * 0x13333333333333 < 2 ^ 102"
    "0 \<le> n * 1" "n * 1 < 2 ^ 102" "0 \<le> n * 3" "n * 3 < 2 ^ 102"
    using n by simp_all
  show "scaled s lit_0_5 = Num (round (0.5 * real_of_int n))"
    unfolding scaled_def p lit_0_5_def times_literal_finite [OF N(5,6)] s1
    by (simp add: r)
  show "scaled s lit_0_75 = Num (round (0.75 * real_of_int n))"
    unfolding scaled_def p lit_0_75_def times_literal_finite [OF N(7,8)] s1
    by (simp add: r mult.commute)
  show "scaled s lit_1_5 = Num (round (1.5 * real_of_int n))"
    unfolding scaled_def p lit_1_5_def times_literal_finite [OF N(7,8)] s1
    by (simp add: r mult.commute)
  show "scaled s lit_1_1 = Num (round (1.1 * real_of_int n))"
    unfolding scaled_def p lit_1_1_def times_literal_finite [OF N(1,2)]
    by (simp only: product_1_1 [OF n])
  show "scaled s lit_0_55 = Num (round (0.55 * real_of_int n))"
    unfolding scaled_def p lit_0_55_def times_literal_finite [OF N(1,2)]
    by (simp only: product_0_55 [OF n])
  show "scaled s lit_1_2 = Num (round (1.2 * real_of_int n))"
    unfolding scaled_def p lit_1_2_def times_literal_finite [OF N(3,4)]
    by (simp only: product_1_2 [OF n])
qed

lemma digit_char_value: "d < 10 \<Longrightarrow> digit_value (''0123456789'' ! d) = Some d"
proof -
  assume "d < 10"
  then have "d \<in> {0, 1, 2, 3, 4, 5, 6, 7, 8, 9}" by auto
  then show ?thesis by (auto simp: digit_value_def)
qed

lemma digit_char_plain:
  "d < 10 \<Longrightarrow> \<not> is_ws (''0123456789'' ! d) \<and> ''0123456789'' ! d \<noteq> CHR ''-''
     \<and> ''0123456789'' ! d \<noteq> CHR ''+'' \<and> ''0123456789'' ! d \<noteq> CHR ''x''
     \<and> ''0123456789'' ! d \<noteq> CHR ''X''"
proof -
  assume "d < 10"
  then have "d \<in> {0, 1, 2, 3, 4, 5, 6, 7, 8, 9}" by auto
  then show ?thesis by (auto simp: is_ws_def)
qed

lemma plain_digit_nth: "d < 10 \<Longrightarrow> plain_digit (''0123456789'' ! d)"
  unfolding plain_digit_def by blast

lemma plain_digit_facts:
  assumes "plain_digit c"
  shows "\<not> is_ws c" "c \<noteq> CHR ''-''" "c \<noteq> CHR ''+''" "c \<noteq> CHR ''x''" "c \<noteq> CHR ''X''"
    "is_digit 10 c"
proof -
  from assms obtain d where d: "d < 10" and c: "c = ''0123456789'' ! d"
    unfolding plain_digit_def by blast
  have *: "\<not> is_ws c \<and> c \<noteq> CHR ''-'' \<and> c \<noteq> CHR ''+'' \<and> c \<noteq> CHR ''x'' \<and> c \<noteq> CHR ''X''"
    unfolding c by (rule digit_char_plain [OF d])
  show "\<not> is_ws c" "c \<noteq> CHR ''-''" "c \<noteq> CHR ''+''" "c \<noteq> CHR ''x''" "c \<noteq> CHR ''X''"
    using * by blast+
  from digit_char_value [OF d] c d show "is_digit 10 c"
    by (simp add: is_digit_def)
qed

lemma decimal_digits: "c \<in> set (decimal n) \<Longrightarrow> plain_digit c"
proof (induction n arbitrary: c rule: decimal.induct)
  case (1 n)
  show ?case
  proof (cases "n < 10")
    case True
    with "1.prems" show ?thesis
      by (subst (asm) decimal.simps) (simp add: plain_digit_nth)
  next
    case False
    have "plain_digit (''0123456789'' ! (n mod 10))"
      by (rule plain_digit_nth) simp
    with False 1 show ?thesis
      by (subst (asm) decimal.simps) auto
  qed
qed

lemma decimal_nonempty: "decimal n \<noteq> []"
  by (subst decimal.simps) simp

lemma digits_value_snoc:
  "digits_value r (z @ [c]) =
     digits_value r z * r + (case digit_value c of None \<Rightarrow> 0 | Some d \<Rightarrow> d)"
  by (simp add: digits_value_def)

lemma digits_value_decimal: "digits_value 10 (decimal n) = n"
proof (induction n rule: decimal.induct)
  case (1 n)
  show ?case
  proof (cases "n < 10")
    case True
    then show ?thesis
      by (subst decimal.simps) (simp add: digits_value_def digit_char_value)
  next
    case False
    have "n mod 10 < 10" by simp
    then have "digit_value (''0123456789'' ! (n mod 10)) = Some (n mod 10)"
      by (rule digit_char_value)
    with False 1 show ?thesis
      by (subst decimal.simps) (simp add: digits_value_snoc)
  qed
qed

text \<open>
  \<^verbatim>\<open>parseInt\<close> reads a decimal numeral below \<open>2 ^ 53\<close> as the number it denotes.
\<close>

lemma parseInt_decimal:
  assumes "n < 2 ^ 53"
  shows "parseInt (decimal n) = Num (int n)"
proof -
  obtain c r where cr: "decimal n = c # r"
    using decimal_nonempty [of n] by (cases "decimal n") auto
  have all: "\<And>c. c \<in> set (decimal n) \<Longrightarrow> plain_digit c" by (rule decimal_digits)
  have "plain_digit c" using all cr by simp
  note c = plain_digit_facts [OF this]
  have r: "r = [] \<or> (r \<noteq> [] \<and> hd r \<noteq> CHR ''x'' \<and> hd r \<noteq> CHR ''X'')"
  proof (cases r)
    case Nil then show ?thesis by simp
  next
    case (Cons x xs)
    then have "plain_digit x" using all cr by simp
    from plain_digit_facts [OF this] Cons show ?thesis by simp
  qed
  have nox: "\<not> prefix ''0x'' (c # r)" "\<not> prefix ''0X'' (c # r)"
    using r unfolding prefix_def by auto
  have "\<forall>c \<in> set (decimal n). is_digit 10 c"
    using all plain_digit_facts(6) by blast
  then have tw: "takeWhile (is_digit 10) (c # r) = c # r"
    unfolding cr [symmetric] by (simp add: takeWhile_eq_all_conv)
  have dw: "dropWhile is_ws (decimal n) = c # r"
    using cr c by simp
  have dv: "digits_value 10 (c # r) = n"
    using digits_value_decimal [of n] cr by simp
  have "\<bar>int n\<bar> < 2 ^ 53" using assms by (simp add: nat_less_numeral_power_cancel_iff flip: of_nat_less_iff)
  then have d: "double_of (int n) = Num (int n)" by (rule double_of_small)
  show ?thesis
    unfolding parseInt_def dw
    using c(2,3) nox
    by (simp add: Let_def tw dv d del: prefix_code takeWhile.simps)
qed

lemma parseInt_Nil: "parseInt [] = NaN"
  by (simp add: parseInt_def)

text \<open>The displayed bounds stay far below \<open>2 ^ 53\<close>, so that \<^verbatim>\<open>+ 1\<close> is exact on them.\<close>

lemma plus1_rounded:
  fixes n :: int
  assumes n: "0 \<le> n" "n \<le> 5 * 10 ^ 14" and c: "0 \<le> c" "c \<le> 2"
  shows "plus1 (Num (round (c * real_of_int n))) = Num (round (c * real_of_int n) + 1)"
proof -
  have "c * real_of_int n \<le> 2 * real_of_int (5 * 10 ^ 14)"
    using n c by (intro mult_mono) simp_all
  then have "round (c * real_of_int n) \<le> round (2 * real_of_int (5 * 10 ^ 14))"
    by (rule round_mono)
  then have 1: "round (c * real_of_int n) \<le> 10 ^ 15" by simp
  have "0 \<le> c * real_of_int n" using n c by simp
  then have "round (0::real) \<le> round (c * real_of_int n)" by (rule round_mono)
  then have 2: "0 \<le> round (c * real_of_int n)" by simp
  from 1 2 have "\<bar>round (c * real_of_int n) + 1\<bar> < 2 ^ 53" by simp
  then show ?thesis by (simp add: plus1_def double_of_small)
qed

lemma plus1_small: "0 \<le> n \<Longrightarrow> n \<le> 5 * 10 ^ 14 \<Longrightarrow> plus1 (Num n) = Num (n + 1)"
  by (simp add: plus1_def double_of_small)

text \<open>
  The preview for any three inputs that \<^verbatim>\<open>parseInt\<close> reads as integers L, M and P from 0
  to \<open>5 * 10 ^ 14\<close>.
\<close>

lemma preview_of_parsed:
  assumes p: "parseInt (threshold_hr t) = Num L" "parseInt (max_hr t) = Num M"
    "parseInt (threshold_power t) = Num P"
    and L: "0 \<le> L" "L \<le> 5 * 10 ^ 14" and P: "0 \<le> P" "P \<le> 5 * 10 ^ 14"
  shows "ThresholdsTab_preview t =
     Some \<lparr>hr_zones = Some
        [\<lparr>zone = 1, zone_name = ''Recovery'', lower = Num 0,
          upper = Num (round (0.5 * real_of_int L))\<rparr>,
         \<lparr>zone = 2, zone_name = ''Endurance'', lower = Num (round (0.5 * real_of_int L) + 1),
          upper = Num (round (0.75 * real_of_int L))\<rparr>,
         \<lparr>zone = 3, zone_name = ''Tempo'', lower = Num (round (0.75 * real_of_int L) + 1),
          upper = Num L\<rparr>,
         \<lparr>zone = 4, zone_name = ''Threshold'', lower = Num (L + 1),
          upper = Num (round (1.1 * real_of_int L))\<rparr>,
         \<lparr>zone = 5, zone_name = ''Max'', lower = Num (round (1.1 * real_of_int L) + 1),
          upper = Num M\<rparr>],
      power_zones = Some
        [\<lparr>zone = 1, zone_name = ''Active'', lower = Num 0,
          upper = Num (round (0.55 * real_of_int P))\<rparr>,
         \<lparr>zone = 2, zone_name = ''Endurance'', lower = Num (round (0.55 * real_of_int P) + 1),
          upper = Num (round (0.75 * real_of_int P))\<rparr>,
         \<lparr>zone = 3, zone_name = ''Sweet Spot'', lower = Num (round (0.75 * real_of_int P) + 1),
          upper = Num P\<rparr>,
         \<lparr>zone = 4, zone_name = ''VO2 Max'', lower = Num (P + 1),
          upper = Num (round (1.2 * real_of_int P))\<rparr>,
         \<lparr>zone = 5, zone_name = ''Anaerobic'', lower = Num (round (1.2 * real_of_int P) + 1),
          upper = Num (round (1.5 * real_of_int P))\<rparr>]\<rparr>"
proof -
  have ne: "threshold_hr t \<noteq> []" "max_hr t \<noteq> []" "threshold_power t \<noteq> []"
    using p by (auto simp: parseInt_Nil)
  note sL = scaled_values [OF p(1) L]
  note sP = scaled_values [OF p(3) P]
  have pl: "plus1 (Num (round (0.5 * real_of_int L))) = Num (round (0.5 * real_of_int L) + 1)"
    "plus1 (Num (round (0.75 * real_of_int L))) = Num (round (0.75 * real_of_int L) + 1)"
    "plus1 (Num (round (1.1 * real_of_int L))) = Num (round (1.1 * real_of_int L) + 1)"
    "plus1 (Num (round (0.55 * real_of_int P))) = Num (round (0.55 * real_of_int P) + 1)"
    "plus1 (Num (round (0.75 * real_of_int P))) = Num (round (0.75 * real_of_int P) + 1)"
    "plus1 (Num (round (1.2 * real_of_int P))) = Num (round (1.2 * real_of_int P) + 1)"
    "plus1 (Num L) = Num (L + 1)" "plus1 (Num P) = Num (P + 1)"
    using plus1_rounded [OF L, of "0.5"] plus1_rounded [OF L, of "0.75"]
      plus1_rounded [OF L, of "1.1"] plus1_rounded [OF P, of "0.55"]
      plus1_rounded [OF P, of "0.75"] plus1_rounded [OF P, of "1.2"]
      plus1_small [OF L] plus1_small [OF P]
    by simp_all
  show ?thesis
    unfolding ThresholdsTab_preview_def preview_hr_lines_def preview_power_lines_def
    by (simp only: ne p sL sP pl) simp
qed

lemma preview_of_decimal:
  assumes "L \<le> 5 * 10 ^ 14" "M \<le> 5 * 10 ^ 14" "P \<le> 5 * 10 ^ 14"
  shows "ThresholdsTab_preview
     \<lparr>threshold_hr = decimal L, max_hr = decimal M, resting_hr = rest,
      threshold_power = decimal P, running_threshold_power = rftp, critical_power = cp\<rparr> =
     Some \<lparr>hr_zones = Some
        [\<lparr>zone = 1, zone_name = ''Recovery'', lower = Num 0,
          upper = Num (round (0.5 * real L))\<rparr>,
         \<lparr>zone = 2, zone_name = ''Endurance'', lower = Num (round (0.5 * real L) + 1),
          upper = Num (round (0.75 * real L))\<rparr>,
         \<lparr>zone = 3, zone_name = ''Tempo'', lower = Num (round (0.75 * real L) + 1),
          upper = Num (int L)\<rparr>,
         \<lparr>zone = 4, zone_name = ''Threshold'', lower = Num (int L + 1),
          upper = Num (round (1.1 * real L))\<rparr>,
         \<lparr>zone = 5, zone_name = ''Max'', lower = Num (round (1.1 * real L) + 1),
          upper = Num (int M)\<rparr>],
      power_zones = Some
        [\<lparr>zone = 1, zone_name = ''Active'', lower = Num 0,
          upper = Num (round (0.55 * real P))\<rparr>,
         \<lparr>zone = 2, zone_name = ''Endurance'', lower = Num (round (0.55 * real P) + 1),
          upper = Num (round (0.75 * real P))\<rparr>,
         \<lparr>zone = 3, zone_name = ''Sweet Spot'', lower = Num (round (0.75 * real P) + 1),
          upper = Num (int P)\<rparr>,
         \<lparr>zone = 4, zone_name = ''VO2 Max'', lower = Num (int P + 1),
          upper = Num (round (1.2 * real P))\<rparr>,
         \<lparr>zone = 5, zone_name = ''Anaerobic'', lower = Num (round (1.2 * real P) + 1),
          upper = Num (round (1.5 * real P))\<rparr>]\<rparr>"
proof -
  have b: "\<And>n::nat. n \<le> 5 * 10 ^ 14 \<Longrightarrow> n < 2 ^ 53 \<and> int n \<le> 5 * 10 ^ 14"
  proof -
    fix n :: nat
    assume "n \<le> 5 * 10 ^ 14"
    moreover have "5 * (10::nat) ^ 14 < 2 ^ 53" by simp
    ultimately have "n < 2 ^ 53" by (rule le_less_trans)
    moreover have "int n \<le> int (5 * 10 ^ 14)" using \<open>n \<le> 5 * 10 ^ 14\<close>
      by (simp only: of_nat_le_iff)
    ultimately show "n < 2 ^ 53 \<and> int n \<le> 5 * 10 ^ 14" by simp
  qed
  note bL = b [OF assms(1)] and bM = b [OF assms(2)] and bP = b [OF assms(3)]
  show ?thesis
    using bL bM bP
    by (subst preview_of_parsed [where L = "int L" and M = "int M" and P = "int P"])
       (simp_all add: parseInt_decimal)
qed

text \<open>
  C2 as stated: for every positive integer LTHR L the upper bound of zone 4 is
  round(1.1 L). It fails for large L: the input 511854458089504 gives the product
  563039903898454.5 in double arithmetic, where the exact product is 563039903898454.4,
  so the preview shows 563039903898455 and not 563039903898454.
\<close>

theorem zone_preview_large_threshold:
  "map_option (map upper)
     (Option.bind
        (ThresholdsTab_preview
           \<lparr>threshold_hr = ''511854458089504'', max_hr = ''600000000000000'', resting_hr = [],
            threshold_power = ''250'', running_threshold_power = [], critical_power = []\<rparr>)
        hr_zones) =
     Some [Num 255927229044752, Num 383890843567128, Num 511854458089504,
           Num 563039903898455, Num 600000000000000]
   \<and> round (1.1 * real (511854458089504::nat)) = (563039903898454::int)"
  by (simp add: ThresholdsTab_preview_def preview_hr_lines_def scaled_def parseInt_def
      digits_value_def digit_value_def is_digit_def is_ws_def double_of_def round53_def
      times_literal_def Math_round_number_def Math_round_def Let_def lit_0_5_def lit_0_75_def
      lit_1_1_def compute_bitlen round_def)

text \<open>
  A negative threshold shows the difference much earlier: the exact product of -1906495
  and 1.1 is the half -2097144.5, which rounds to -2097144, and the double product lies
  below it.
\<close>

lemma scaled_negative:
  "scaled ''-1906495'' lit_1_1 = Num (- 2097145)
   \<and> round (1.1 * real_of_int (- 1906495)) = (- 2097144 :: int)"
  by (simp add: scaled_def parseInt_def digits_value_def digit_value_def is_digit_def
      is_ws_def double_of_def round53_def times_literal_def Math_round_number_def
      Math_round_def Let_def lit_1_1_def compute_bitlen round_def)

text \<open>Beyond \<open>2 ^ 53\<close> \<^verbatim>\<open>parseInt\<close> itself rounds.\<close>

lemma parseInt_rounds: "parseInt ''9007199254740993'' = Num 9007199254740992"
  by (simp add: parseInt_def digits_value_def digit_value_def is_digit_def is_ws_def
      double_of_def round53_def Let_def compute_bitlen)

text \<open>
  C2, amended. For all integers L, M and P from 0 to \<open>5 * 10 ^ 14\<close> typed as decimal numerals
  into the LTHR, max heart rate and FTP inputs (the other three inputs are arbitrary),
  the preview shows five heart-rate zones with upper bounds round(0.5 L), round(0.75 L),
  L, round(1.1 L), M and five power zones with upper bounds round(0.55 P), round(0.75 P),
  P, round(1.2 P), round(1.5 P), the products and the rounding being those of exact
  arithmetic; the lower bound of zone 1 is 0 and the lower bound of each later zone is
  the upper bound of the zone before it plus 1. For the inputs 180, 200 and 250 the upper
  bounds are 90, 135, 180, 198, 200 and 138, 188, 250, 300, 375.
\<close>

theorem zone_preview_bounds:
  assumes "L \<le> 5 * 10 ^ 14" "M \<le> 5 * 10 ^ 14" "P \<le> 5 * 10 ^ 14"
  shows "ThresholdsTab_preview
     \<lparr>threshold_hr = decimal L, max_hr = decimal M, resting_hr = rest,
      threshold_power = decimal P, running_threshold_power = rftp, critical_power = cp\<rparr> =
     Some \<lparr>hr_zones = Some
        [\<lparr>zone = 1, zone_name = ''Recovery'', lower = Num 0,
          upper = Num (round (0.5 * real L))\<rparr>,
         \<lparr>zone = 2, zone_name = ''Endurance'', lower = Num (round (0.5 * real L) + 1),
          upper = Num (round (0.75 * real L))\<rparr>,
         \<lparr>zone = 3, zone_name = ''Tempo'', lower = Num (round (0.75 * real L) + 1),
          upper = Num (int L)\<rparr>,
         \<lparr>zone = 4, zone_name = ''Threshold'', lower = Num (int L + 1),
          upper = Num (round (1.1 * real L))\<rparr>,
         \<lparr>zone = 5, zone_name = ''Max'', lower = Num (round (1.1 * real L) + 1),
          upper = Num (int M)\<rparr>],
      power_zones = Some
        [\<lparr>zone = 1, zone_name = ''Active'', lower = Num 0,
          upper = Num (round (0.55 * real P))\<rparr>,
         \<lparr>zone = 2, zone_name = ''Endurance'', lower = Num (round (0.55 * real P) + 1),
          upper = Num (round (0.75 * real P))\<rparr>,
         \<lparr>zone = 3, zone_name = ''Sweet Spot'', lower = Num (round (0.75 * real P) + 1),
          upper = Num (int P)\<rparr>,
         \<lparr>zone = 4, zone_name = ''VO2 Max'', lower = Num (int P + 1),
          upper = Num (round (1.2 * real P))\<rparr>,
         \<lparr>zone = 5, zone_name = ''Anaerobic'', lower = Num (round (1.2 * real P) + 1),
          upper = Num (round (1.5 * real P))\<rparr>]\<rparr>
   \<and> map_option (\<lambda>s. (map_option (map upper) (hr_zones s), map_option (map upper) (power_zones s)))
       (ThresholdsTab_preview
          \<lparr>threshold_hr = ''180'', max_hr = ''200'', resting_hr = rest,
           threshold_power = ''250'', running_threshold_power = rftp, critical_power = cp\<rparr>) =
     Some (Some [Num 90, Num 135, Num 180, Num 198, Num 200],
           Some [Num 138, Num 188, Num 250, Num 300, Num 375])"
proof -
  have d: "''180'' = decimal 180" "''200'' = decimal 200" "''250'' = decimal 250"
    by (simp_all add: decimal.simps)
  show ?thesis
    apply (rule conjI)
     apply (rule preview_of_decimal [OF assms])
    apply (simp only: d)
    apply (subst preview_of_decimal)
       apply (simp_all add: round_def)
    done
qed

theorem zone_preview_bounds_witness:
  "ThresholdsTab_preview
     \<lparr>threshold_hr = ''180'', max_hr = ''200'', resting_hr = [],
      threshold_power = ''250'', running_threshold_power = [], critical_power = []\<rparr> =
     Some \<lparr>hr_zones = Some
        [\<lparr>zone = 1, zone_name = ''Recovery'', lower = Num 0, upper = Num 90\<rparr>,
         \<lparr>zone = 2, zone_name = ''Endurance'', lower = Num 91, upper = Num 135\<rparr>,
         \<lparr>zone = 3, zone_name = ''Tempo'', lower = Num 136, upper = Num 180\<rparr>,
         \<lparr>zone = 4, zone_name = ''Threshold'', lower = Num 181, upper = Num 198\<rparr>,
         \<lparr>zone = 5, zone_name = ''Max'', lower = Num 199, upper = Num 200\<rparr>],
      power_zones = Some
        [\<lparr>zone = 1, zone_name = ''Active'', lower = Num 0, upper = Num 138\<rparr>,
         \<lparr>zone = 2, zone_name = ''Endurance'', lower = Num 139, upper = Num 188\<rparr>,
         \<lparr>zone = 3, zone_name = ''Sweet Spot'', lower = Num 189, upper = Num 250\<rparr>,
         \<lparr>zone = 4, zone_name = ''VO2 Max'', lower = Num 251, upper = Num 300\<rparr>,
         \<lparr>zone = 5, zone_name = ''Anaerobic'', lower = Num 301, upper = Num 375\<rparr>]\<rparr>
   \<and> (180::nat) \<le> 5 * 10 ^ 14 \<and> (200::nat) \<le> 5 * 10 ^ 14 \<and> (250::nat) \<le> 5 * 10 ^ 14"
proof -
  have d: "decimal 180 = ''180''" "decimal 200 = ''200''" "decimal 250 = ''250''"
    by (simp_all add: decimal.simps)
  from zone_preview_bounds [where L = 180 and M = 200 and P = 250 and rest = "[]"
      and rftp = "[]" and cp = "[]"]
  show ?thesis
    unfolding d by (simp add: round_def)
qed

text \<open>
  C3. When a required threshold is absent (LTHR for the heart-rate zones, FTP for the
  power zones) the zone set is withheld, never computed with zero in its place. The
  summary of the zones tab breaks this: for a user whose thresholds hold a max heart
  rate of 200 and no LTHR, \<^verbatim>\<open>lthr\<close> is 0 and the five heart-rate zones are displayed as
  0 - 0, 1 - 0, 1 - 0, 1 - 0 and 1 - 200.
\<close>

theorem ZonesTab_substitutes_zero:
  "ZonesTab_summary
     (Some \<lparr>threshold_hr_v = None, max_hr_v = Some 200, resting_hr_v = None,
        threshold_power_v = None, running_threshold_power_v = None, critical_power_v = None\<rparr>) =
     Some \<lparr>hr_zones = Some
        [\<lparr>zone = 1, zone_name = ''Recovery'', lower = 0, upper = 0\<rparr>,
         \<lparr>zone = 2, zone_name = ''Endurance'', lower = 1, upper = 0\<rparr>,
         \<lparr>zone = 3, zone_name = ''Tempo'', lower = 1, upper = 0\<rparr>,
         \<lparr>zone = 4, zone_name = ''Threshold'', lower = 1, upper = 0\<rparr>,
         \<lparr>zone = 5, zone_name = ''Max'', lower = 1, upper = 200\<rparr>],
      power_zones = None\<rparr>"
  by (simp add: ZonesTab_summary_def lthr_of_def maxHr_of_def ftp_of_def or_zero_def
      summary_hr_lines_def Math_round_def)

text \<open>
  The preview of the thresholds tab, the labels of the zones tab and the power column of
  its summary do withhold their zones when the threshold is missing.
\<close>

lemma ThresholdsTab_withholds:
  "(threshold_hr t = [] \<longrightarrow>
      (case ThresholdsTab_preview t of None \<Rightarrow> True
       | Some s \<Rightarrow> hr_zones s = None \<or> hr_zones s = Some []))
   \<and> (threshold_power t = [] \<longrightarrow>
      (case ThresholdsTab_preview t of None \<Rightarrow> True | Some s \<Rightarrow> power_zones s = None))"
  by (simp add: ThresholdsTab_preview_def preview_hr_lines_def)

lemma ZonesTab_labels_withhold:
  "lthr_of tv = 0 \<Longrightarrow> take 4 (hrZones_max tv) = [None, None, None, None]"
  "ftp_of tv = 0 \<Longrightarrow> powerZones_max tv = [None, None, None, None, None]"
  "ftp_of tv = 0 \<Longrightarrow>
     (case ZonesTab_summary tv of None \<Rightarrow> True | Some s \<Rightarrow> power_zones s = None)"
  by (simp_all add: hrZones_max_def powerZones_max_def ZonesTab_summary_def Let_def)

section \<open>Properties of the streaming-chat reader\<close>

text \<open>The definitions unfolded to run the reader on concrete input.\<close>

lemmas json_eval =
  JSON_parse_def js_def ascii_def lex_step_def lex_top_def cu_def is_json_ws_def is_dec_def lex_end_def
  parse_step_def start_value_def complete_def close_object_def close_array_def
  escape_char_def is_number_char_def number_value_def dec_value_def hex_value_def pow10_def

lemmas reader_eval =
  chatStream_calls_def process_chunk_def handle_line_def try_line_def decode_def
  utf8_handler_def utf8_lead_def utf8_init_def strip_bom_def utf16_def

text \<open>
  C5 as stated: the handler calls \<^verbatim>\<open>onChunk\<close> with t if and only if the line starts with
  \<^verbatim>\<open>data: \<close>, is not \<^verbatim>\<open>data: [DONE]\<close>, its remainder parses as JSON and the JSON carries a
  text field with value t. It fails for the empty text: the line \<^verbatim>\<open>data: {"text":""}\<close>
  meets the four conditions with t the empty string, and the handler makes no call.
\<close>

theorem handle_line_skips_empty_text:
  \<open>prefix (js ''data: '') (js ''data: {"text":""}'')
   \<and> js ''data: {"text":""}'' \<noteq> js ''data: [DONE]''
   \<and> JSON_parse (drop 6 (js ''data: {"text":""}'')) = Some (JObject [(js ''text'', JString [])])
   \<and> get_text (JObject [(js ''text'', JString [])]) = Inr (Some (JString []))
   \<and> handle_line (js ''data: {"text":""}'') = []\<close>
  by (simp add: json_eval reader_eval)

text \<open>
  C5, amended. The handler calls \<^verbatim>\<open>onChunk\<close> with t, once, if and only if the line starts
  with \<^verbatim>\<open>data: \<close>, is not \<^verbatim>\<open>data: [DONE]\<close>, its remainder parses as JSON, the JSON carries a
  text field with value t, and t is true as a condition (it is not \<^verbatim>\<open>null\<close>, \<^verbatim>\<open>false\<close>,
  zero or the empty string). On every other line, the sentinel and lines whose remainder
  does not parse included, it makes no call and raises nothing, and the lines after it
  are handled all the same.
\<close>

theorem handle_line_calls:
  "(handle_line line = [t]) =
     (prefix (js ''data: '') line \<and> line \<noteq> js ''data: [DONE]''
      \<and> (\<exists>data. JSON_parse (drop 6 line) = Some data \<and> get_text data = Inr (Some t) \<and> truthy t))
   \<and> (handle_line line = []) =
     (\<not> (prefix (js ''data: '') line \<and> line \<noteq> js ''data: [DONE]''
         \<and> (\<exists>data t. JSON_parse (drop 6 line) = Some data \<and> get_text data = Inr (Some t)
               \<and> truthy t)))
   \<and> handle_line (js ''data: [DONE]'') = []
   \<and> (JSON_parse (drop 6 line) = None \<longrightarrow> handle_line line = [])
   \<and> concat (map handle_line (line # lines)) = handle_line line @ concat (map handle_line lines)"
  by (auto simp add: handle_line_def try_line_def split: option.splits sum.splits)

theorem handle_line_calls_witness:
  \<open>handle_line (js ''data: {"text":"hi"}'') = [JString (js ''hi'')]
   \<and> JSON_parse (drop 6 (js ''data: {"te'')) = None
   \<and> concat (map handle_line [js ''data: {"te'', js ''data: [DONE]'', js ''data: {"text":"hi"}''])
       = [JString (js ''hi'')]\<close>
  using handle_line_calls [where line = \<open>js ''data: {"te''\<close>
      and lines = \<open>[js ''data: [DONE]'', js ''data: {"text":"hi"}'']\<close>]
  by (simp add: json_eval reader_eval)

text \<open>
  C1 as stated: for every body and every partition of it into chunks the calls of
  \<^verbatim>\<open>onChunk\<close> are those of the body delivered as one chunk. It fails when a line is
  cut: the body \<^verbatim>\<open>data: {"text":"hi"}\<close> with a newline gives one call as one chunk and
  none when it is delivered as \<^verbatim>\<open>data: {"te\<close> and the rest.
\<close>

theorem chatStream_split_line_differs:
  \<open>chatStream_calls [ascii ''data: {"te'', ascii ''xt":"hi"}'' @ [0x0A]] = []
   \<and> chatStream_calls [ascii ''data: {"te'' @ ascii ''xt":"hi"}'' @ [0x0A]] = [JString (js ''hi'')]\<close>
  by (simp add: json_eval reader_eval)

text \<open>
  Two more partitions on which the calls differ: a two-byte character cut in the middle,
  and a second chunk that begins with a byte-order mark, which the decoder strips from
  the start of each chunk it is given.
\<close>

lemma chatStream_split_character_differs:
  \<open>chatStream_calls [ascii ''data: {"text":"'' @ [0xC3], [0xA9] @ ascii ''"}''] = []
   \<and> chatStream_calls [(ascii ''data: {"text":"'' @ [0xC3]) @ ([0xA9] @ ascii ''"}'')]
       = [JString [0xE9]]\<close>
  by (simp add: json_eval reader_eval)

lemma chatStream_later_bom_differs:
  \<open>chatStream_calls [ascii ''data: [DONE]'' @ [0x0A], [0xEF, 0xBB, 0xBF] @ ascii ''data: {"text":"hi"}'']
       = [JString (js ''hi'')]
   \<and> chatStream_calls [(ascii ''data: [DONE]'' @ [0x0A]) @ [0xEF, 0xBB, 0xBF] @ ascii ''data: {"text":"hi"}'']
       = []\<close>
  by (simp add: json_eval reader_eval)

text \<open>
  A newline byte brings the decoder back to its initial state, whatever came before it.
\<close>

lemma utf8_wf_init: "utf8_wf utf8_init"
  by (simp add: utf8_wf_def utf8_init_def)

lemma utf8_lead_newline: "utf8_lead utf8_init 0x0A = ([0x0A], utf8_init)"
  by (simp add: utf8_lead_def)

lemma utf8_lead_wf: "utf8_wf (snd (utf8_lead utf8_init b))"
  by (simp add: utf8_lead_def utf8_wf_def utf8_init_def)

lemma utf8_handler_wf: "utf8_wf d \<Longrightarrow> utf8_wf (snd (utf8_handler d b))"
proof -
  assume wf: "utf8_wf d"
  show ?thesis
  proof (cases "bytes_needed d = 0")
    case True
    with wf have "d = utf8_init" by (simp add: utf8_wf_def)
    with True show ?thesis by (simp add: utf8_handler_def utf8_lead_wf)
  next
    case False
    then show ?thesis
      using utf8_lead_wf [of b]
      by (auto simp: utf8_handler_def Let_def utf8_wf_init split: prod.split)
         (simp add: utf8_wf_def)
  qed
qed

lemma utf8_handler_newline:
  assumes "utf8_wf d"
  shows "\<exists>out. utf8_handler d 0x0A = (out @ [0x0A], utf8_init)"
proof (cases "bytes_needed d = 0")
  case True
  with assms have "d = utf8_init" by (simp add: utf8_wf_def)
  with True have "utf8_handler d 0x0A = ([] @ [0x0A], utf8_init)"
    by (simp add: utf8_handler_def utf8_lead_newline)
  then show ?thesis by blast
next
  case False
  from assms have "0x80 \<le> lower_boundary d" by (simp add: utf8_wf_def)
  moreover have "\<not> (0x80::byte) \<le> 0x0A" by simp
  ultimately have "\<not> lower_boundary d \<le> 0x0A"
    using order_trans by blast
  with False have "utf8_handler d 0x0A = ([0xFFFD] @ [0x0A], utf8_init)"
    by (simp add: utf8_handler_def utf8_lead_newline)
  then show ?thesis by blast
qed

lemma utf8_run_newline_both:
  "utf8_wf d \<Longrightarrow>
   utf8_run d (as @ 0x0A # bs) = utf8_run d (as @ [0x0A]) @ utf8_run utf8_init bs
   \<and> (\<exists>out. utf8_run d (as @ [0x0A]) = out @ [0x0A])"
proof (induction as arbitrary: d)
  case Nil
  from utf8_handler_newline [OF Nil] obtain out
    where "utf8_handler d 0x0A = (out @ [0x0A], utf8_init)" by blast
  then show ?case by (simp add: utf8_init_def)
next
  case (Cons a as)
  obtain out d' where h: "utf8_handler d a = (out, d')" by (cases "utf8_handler d a")
  with utf8_handler_wf [OF Cons.prems, of a] have wf': "utf8_wf d'" by simp
  from Cons.IH [OF wf'] obtain out'
    where 1: "utf8_run d' (as @ 0x0A # bs) = utf8_run d' (as @ [0x0A]) @ utf8_run utf8_init bs"
      and 2: "utf8_run d' (as @ [0x0A]) = out' @ [0x0A]" by blast
  from h 2 have "utf8_run d ((a # as) @ [0x0A]) = (out @ out') @ [0x0A]" by simp
  then have "\<exists>o'. utf8_run d ((a # as) @ [0x0A]) = o' @ [0x0A]" by blast
  with h 1 show ?case by simp
qed

lemmas utf8_run_newline = utf8_run_newline_both [THEN conjunct1] utf8_run_newline_both [THEN conjunct2]

lemma strip_bom_append: "x \<noteq> [] \<Longrightarrow> strip_bom (x @ y) = strip_bom x @ y"
  by (cases x) (simp_all add: strip_bom_def)

lemma strip_bom_snoc: "\<exists>out'. strip_bom (out @ [0x0A]) = out' @ [0x0A]"
  by (cases out) (simp_all add: strip_bom_def)

lemma strip_bom_id: "\<not> decodes_to_bom w \<Longrightarrow> strip_bom (utf8_run utf8_init w) = utf8_run utf8_init w"
  by (simp add: decodes_to_bom_def strip_bom_def split: list.splits)

lemma utf16_newline: "utf16 0x0A = [0x0A]"
  by (simp add: utf16_def)

text \<open>
  Decoding a chunk that ends with a newline byte, followed by more bytes that do not
  begin with a byte-order mark, is decoding the two parts one after the other; and
  the text of the first part ends with a newline.
\<close>

lemma decode_append:
  assumes "v \<noteq> []" "last v = 0x0A" "\<not> decodes_to_bom w"
  shows "decode (v @ w) = decode v @ decode w"
proof -
  from assms obtain as where v: "v = as @ [0x0A]"
    by (metis append_butlast_last_id)
  have run: "utf8_run utf8_init (v @ w) = utf8_run utf8_init v @ utf8_run utf8_init w"
    using utf8_run_newline(1) [OF utf8_wf_init, of as w] by (simp add: v)
  from utf8_run_newline(2) [OF utf8_wf_init, of as]
  have ne: "utf8_run utf8_init v \<noteq> []" by (auto simp: v)
  show ?thesis
    by (simp add: decode_def run strip_bom_append [OF ne] strip_bom_id [OF assms(3)])
qed

lemma decode_newline:
  assumes "v \<noteq> []" "last v = 0x0A"
  shows "\<exists>s. decode v = s @ [0x0A]"
proof -
  from assms obtain as where v: "v = as @ [0x0A]"
    by (metis append_butlast_last_id)
  from utf8_run_newline(2) [OF utf8_wf_init, of as] obtain out
    where "utf8_run utf8_init v = out @ [0x0A]" by (auto simp: v)
  moreover from strip_bom_snoc [of out] obtain out'
    where "strip_bom (out @ [0x0A]) = out' @ [0x0A]" by blast
  ultimately have "decode v = concat (map utf16 out') @ [0x0A]"
    by (simp add: decode_def utf16_newline)
  then show ?thesis by blast
qed

lemma decodes_to_bom_append:
  assumes "v \<noteq> []" "last v = 0x0A"
  shows "decodes_to_bom (v @ w) = decodes_to_bom v"
proof -
  from assms obtain as where v: "v = as @ [0x0A]"
    by (metis append_butlast_last_id)
  have run: "utf8_run utf8_init (v @ w) = utf8_run utf8_init v @ utf8_run utf8_init w"
    using utf8_run_newline(1) [OF utf8_wf_init, of as w] by (simp add: v)
  from utf8_run_newline(2) [OF utf8_wf_init, of as]
  have ne: "utf8_run utf8_init v \<noteq> []" by (auto simp: v)
  then show ?thesis
    by (cases "utf8_run utf8_init v") (simp_all add: decodes_to_bom_def run)
qed

lemma split_append: "split sep (a @ sep # b) = split sep a @ split sep b"
proof (induction a)
  case Nil
  show ?case by simp
next
  case (Cons c a)
  have ne: "split sep a \<noteq> []" by (cases a) (auto split: list.splits)
  then show ?case using Cons by (auto split: list.splits)
qed

lemma handle_line_empty: "handle_line [] = []"
  by (simp add: handle_line_def js_def)

lemma process_chunk_append:
  assumes "v \<noteq> []" "last v = 0x0A" "\<not> decodes_to_bom w"
  shows "process_chunk (v @ w) = process_chunk v @ process_chunk w"
proof -
  from decode_newline [OF assms(1,2)] obtain s where s: "decode v = s @ [0x0A]" by blast
  have "split 0x0A (decode (v @ w)) = split 0x0A s @ split 0x0A (decode w)"
    by (simp add: decode_append [OF assms] s split_append)
  moreover have "split 0x0A (decode v) = split 0x0A s @ [[]]"
    using split_append [of "0x0A" s "[]"] by (simp add: s)
  ultimately show ?thesis
    by (simp add: process_chunk_def handle_line_empty)
qed

lemma read_loop_concat: "read_loop chunks calls = calls @ concat (map process_chunk chunks)"
  by (induction chunks arbitrary: calls) simp_all

lemma process_chunk_concat:
  "line_aligned chunks \<Longrightarrow>
   process_chunk (concat chunks) = concat (map process_chunk chunks)
   \<and> (chunks \<noteq> [] \<longrightarrow> decodes_to_bom (concat chunks) = decodes_to_bom (hd chunks))"
proof (induction chunks)
  case Nil
  show ?case by (simp add: process_chunk_def decode_def strip_bom_def handle_line_empty utf8_init_def)
next
  case (Cons v rest)
  show ?case
  proof (cases rest)
    case Nil
    then show ?thesis by simp
  next
    case (Cons w rest')
    from Cons.prems Cons have v: "v \<noteq> []" "last v = 0x0A" and w: "\<not> decodes_to_bom w"
      and al: "line_aligned rest"
      by (auto simp: line_aligned_def)
    from Cons.IH [OF al] Cons have ih: "process_chunk (concat rest) = concat (map process_chunk rest)"
      and bom: "decodes_to_bom (concat rest) = decodes_to_bom w" by simp_all
    from bom w have "\<not> decodes_to_bom (concat rest)" by simp
    from process_chunk_append [OF v this] ih decodes_to_bom_append [OF v, of "concat rest"]
    show ?thesis by simp
  qed
qed

text \<open>The bit operations of the decoder as arithmetic.\<close>

lemma or_low:
  assumes "y < 64"
  shows "push_bit 6 (x::nat) OR y = 64 * x + y"
proof -
  from assms have y: "take_bit 6 y = y" by (simp add: take_bit_nat_eq_self)
  have "push_bit 6 x AND take_bit 6 y = 0"
    by (rule bit_eqI) (auto simp: bit_simps)
  then have "push_bit 6 x + y = push_bit 6 x OR y"
    unfolding y by (rule disjunctive_add_eq_or)
  then show ?thesis by (simp add: push_bit_eq_mult)
qed

lemma or_low_15: "y < 64 \<Longrightarrow> 960 OR y = 960 + (y::nat)"
  using or_low [of y 15] by simp

lemma and_low:
  fixes b :: byte
  shows "unat (b AND 0x3F) = unat b mod 64" "unat (b AND 0x1F) = unat b mod 32"
    "unat (b AND 0xF) = unat b mod 16" "unat (b AND 0x7) = unat b mod 8"
proof -
  have m: "(0x3F :: byte) = mask 6" "(0x1F :: byte) = mask 5" "(0xF :: byte) = mask 4"
    "(0x7 :: byte) = mask 3"
    by (simp_all add: mask_eq_exp_minus_1)
  show "unat (b AND 0x3F) = unat b mod 64" "unat (b AND 0x1F) = unat b mod 32"
    "unat (b AND 0xF) = unat b mod 16" "unat (b AND 0x7) = unat b mod 8"
    unfolding m
    by (simp_all add: take_bit_eq_mask [symmetric] unsigned_take_bit_eq take_bit_eq_mod unat_mod)
qed

lemma byte_le: "((a::byte) \<le> b) = (unat a \<le> unat b)"
  by (rule word_le_nat_alt)

lemma byte_eq: "((a::byte) = b) = (unat a = unat b)"
  by (simp add: word_unat_eq_iff)

lemma unat_byte_lt: "unat (b::byte) < 256"
  using unsigned_less [of b, where 'a = nat] by simp

lemma first_is_Nil [simp]: "first_is P [] = False"
  by (simp add: first_is_def)

lemma first_is_Cons [simp]: "first_is P (c # r) = P c"
  by (simp add: first_is_def)

lemma first_is_append_Cons [simp]: "first_is P ((c # r) @ s) = P c"
  by (simp add: first_is_def)

lemma first_is_Nil_append [simp]: "first_is P ([] @ s) = first_is P s"
  by simp

lemma first_is_mono: "first_is P cps \<Longrightarrow> (\<And>c. P c \<Longrightarrow> Q c) \<Longrightarrow> first_is Q cps"
  by (cases cps) (simp_all add: first_is_def)

lemma decodes_to_bom_first: "decodes_to_bom v = first_is (\<lambda>c. c = 0xFEFF) (utf8_run utf8_init v)"
  by (simp add: decodes_to_bom_def first_is_def)

text \<open>
  While bytes are needed, the first code point the decoder emits is U+FFFD or lies in the
  range that the bits read so far leave open.
\<close>

lemma pending_range:
  "bytes_seen d < bytes_needed d \<Longrightarrow>
   first_is (\<lambda>c. c = 0xFFFD
      \<or> (code_point d * 64 ^ (bytes_needed d - bytes_seen d) \<le> c
          \<and> c < (code_point d + 1) * 64 ^ (bytes_needed d - bytes_seen d)))
     (utf8_run d r)"
proof (induction r arbitrary: d)
  case Nil
  then show ?case by simp
next
  case (Cons b r)
  let ?m = "bytes_needed d - bytes_seen d"
  let ?x = "unat b mod 64"
  let ?cp = "64 * code_point d + ?x"
  have x: "?x < 64" by simp
  from Cons.prems have ne: "bytes_needed d \<noteq> 0" by simp
  show ?case
  proof (cases "lower_boundary d \<le> b \<and> b \<le> upper_boundary d")
    case False
    with ne show ?thesis
      by (simp add: utf8_handler_def split: prod.split)
  next
    case True
    show ?thesis
    proof (cases "bytes_seen d + 1 = bytes_needed d")
      case last: True
      then have m: "?m = 1" by simp
      from True ne last have "utf8_run d (b # r) = [?cp] @ utf8_run utf8_init r"
        by (simp add: utf8_handler_def Let_def and_low or_low)
      then show ?thesis
        unfolding m using x by simp
    next
      case more: False
      let ?d' = "d\<lparr>lower_boundary := 0x80, upper_boundary := 0xBF, code_point := ?cp,
                   bytes_seen := bytes_seen d + 1\<rparr>"
      from True ne more have run: "utf8_run d (b # r) = utf8_run ?d' r"
        by (simp add: utf8_handler_def Let_def and_low or_low)
      from Cons.prems more have pend: "bytes_seen ?d' < bytes_needed ?d'" by simp
      from Cons.prems more obtain k where k: "?m = Suc k" "bytes_needed ?d' - bytes_seen ?d' = k"
        by (cases ?m) auto
      have lo: "code_point d * 64 ^ Suc k \<le> ?cp * 64 ^ k"
        by simp
      have "(?cp + 1) * 64 ^ k \<le> (64 * code_point d + 64) * 64 ^ k"
        using x by (intro mult_right_mono) simp_all
      then have hi: "(?cp + 1) * 64 ^ k \<le> (code_point d + 1) * 64 ^ Suc k"
        by (simp add: algebra_simps)
      from Cons.IH [OF pend] have
        "first_is (\<lambda>c. c = 0xFFFD \<or> (?cp * 64 ^ k \<le> c \<and> c < (?cp + 1) * 64 ^ k)) (utf8_run ?d' r)"
        using k(2) by simp
      then have "first_is (\<lambda>c. c = 0xFFFD
          \<or> (code_point d * 64 ^ Suc k \<le> c \<and> c < (code_point d + 1) * 64 ^ Suc k)) (utf8_run ?d' r)"
      proof (rule first_is_mono)
        fix c
        assume "c = 0xFFFD \<or> (?cp * 64 ^ k \<le> c \<and> c < (?cp + 1) * 64 ^ k)"
        then show "c = 0xFFFD
          \<or> (code_point d * 64 ^ Suc k \<le> c \<and> c < (code_point d + 1) * 64 ^ Suc k)"
          using order_trans [OF lo] less_le_trans [OF _ hi] by blast
      qed
      then show ?thesis
        unfolding run k(1) .
    qed
  qed
qed

lemma pending_not_bom:
  assumes "bytes_seen d < bytes_needed d"
    and "(code_point d + 1) * 64 ^ (bytes_needed d - bytes_seen d) \<le> 0xFEFF
         \<or> 0xFEFF < code_point d * 64 ^ (bytes_needed d - bytes_seen d)"
  shows "\<not> first_is (\<lambda>c. c = 0xFEFF) (utf8_run d r)"
proof
  assume a: "first_is (\<lambda>c. c = 0xFEFF) (utf8_run d r)"
  from pending_range [OF assms(1), of r] a assms(2) show False
    by (cases "utf8_run d r") (auto simp: first_is_def)
qed

text \<open>Arithmetic on the values of the bytes.\<close>

lemma mod_offset:
  assumes "a \<le> n" "n < a + m" "m dvd a"
  shows "n mod m = n - (a::nat)"
proof -
  from assms(1) obtain k where n: "n = a + k" by (auto simp: le_iff_add)
  with assms(2) have k: "k < m" by simp
  from assms(3) obtain c where "a = m * c" by (auto simp: dvd_def)
  then have "(a + k) mod m = k mod m" by simp
  with k show ?thesis by (simp add: n)
qed

lemma bom_digits:
  assumes "x1 < 64" "x2 < 64" "64 * (960 + x1) + x2 = 0xFEFF"
  shows "x1 = 59 \<and> x2 = (63::nat)"
proof -
  have "(64 * (960 + x1) + x2) div 64 = 960 + x1" using assms(2) by simp
  with assms(3) have "960 + x1 = 1019" by simp
  then have "x1 = 59" by simp
  with assms(3) show ?thesis by simp
qed
lemma lead3_low: "224 \<le> n \<Longrightarrow> n \<le> 239 \<Longrightarrow> n \<noteq> 239 \<Longrightarrow> n mod 16 \<le> (14::nat)"
  using mod_offset [of 224 n 16] by simp
lemma lead4_high: "240 \<le> n \<Longrightarrow> n \<le> 244 \<Longrightarrow> n \<noteq> 240 \<Longrightarrow> 1 \<le> n mod (8::nat)"
  using mod_offset [of 240 n 8] by simp
lemma cont_F0: "144 \<le> n \<Longrightarrow> n \<le> 191 \<Longrightarrow> 16 \<le> n mod (64::nat)"
  using mod_offset [of 128 n 64] by simp
lemma cont_byte:
  "n mod 64 = x \<Longrightarrow> 128 \<le> n \<Longrightarrow> n \<le> 191 \<Longrightarrow> n = 128 + (x::nat)"
  using mod_offset [of 128 n 64] by simp

lemma out_of_range_first:
  assumes "bytes_needed d \<noteq> 0" "\<not> (lower_boundary d \<le> b \<and> b \<le> upper_boundary d)"
  shows "\<not> first_is (\<lambda>c. c = 0xFEFF) (utf8_run d (b # r))"
proof -
  obtain out d' where "utf8_lead utf8_init b = (out, d')" by (cases "utf8_lead utf8_init b")
  with assms have "utf8_run d (b # r) = 0xFFFD # (out @ utf8_run d' r)"
    by (simp add: utf8_handler_def)
  then show ?thesis by simp
qed

text \<open>Three bytes that begin with EF: only EF BB BF decodes to U+FEFF.\<close>

lemma lead_EF:
  assumes "first_is (\<lambda>c. c = 0xFEFF) (utf8_run utf8_init (0xEF # r))"
  shows "prefix [0xBB, 0xBF] r"
proof -
  let ?d1 = "utf8_init\<lparr>bytes_needed := 2, code_point := 15\<rparr>"
  have run0: "utf8_run utf8_init (0xEF # r) = utf8_run ?d1 r"
    by (simp add: utf8_handler_def utf8_lead_def utf8_init_def)
  from assms have f1: "first_is (\<lambda>c. c = 0xFEFF) (utf8_run ?d1 r)"
    by (simp only: run0)
  show ?thesis
  proof (cases r)
    case Nil
    with f1 show ?thesis by (simp add: utf8_init_def)
  next
    case r: (Cons b1 r1)
    show ?thesis
    proof (cases "0x80 \<le> b1 \<and> b1 \<le> 0xBF")
      case False
      then have "\<not> first_is (\<lambda>c. c = 0xFEFF) (utf8_run ?d1 (b1 # r1))"
        by (intro out_of_range_first) (simp_all add: utf8_init_def)
      with f1 show ?thesis unfolding r by simp
    next
      case in1: True
      let ?x1 = "unat b1 mod 64"
      let ?d2 = "?d1\<lparr>lower_boundary := 0x80, upper_boundary := 0xBF, code_point := 960 + ?x1,
                   bytes_seen := 1\<rparr>"
      from in1 have run1: "utf8_run ?d1 (b1 # r1) = utf8_run ?d2 r1"
        by (simp add: utf8_handler_def utf8_init_def Let_def and_low or_low_15)
      from f1 have f2: "first_is (\<lambda>c. c = 0xFEFF) (utf8_run ?d2 r1)"
        unfolding r by (simp only: run1)
      show ?thesis
      proof (cases r1)
        case Nil
        with f2 show ?thesis by (simp add: utf8_init_def)
      next
        case r1: (Cons b2 r2)
        show ?thesis
        proof (cases "0x80 \<le> b2 \<and> b2 \<le> 0xBF")
          case False
          then have "\<not> first_is (\<lambda>c. c = 0xFEFF) (utf8_run ?d2 (b2 # r2))"
            by (intro out_of_range_first) (simp_all add: utf8_init_def)
          with f2 show ?thesis unfolding r1 by simp
        next
          case in2: True
          let ?x2 = "unat b2 mod 64"
          from in2 have "utf8_run ?d2 (b2 # r2) = [64 * (960 + ?x1) + ?x2] @ utf8_run utf8_init r2"
            by (simp add: utf8_handler_def utf8_init_def Let_def and_low or_low)
          with f2 have eq: "64 * (960 + ?x1) + ?x2 = 0xFEFF"
            unfolding r1 by simp
          have "?x1 < 64" "?x2 < 64" by simp_all
          from bom_digits [OF this eq] have x: "?x1 = 59" "?x2 = 63" by blast+
          from in1 have n1: "128 \<le> unat b1" "unat b1 \<le> 191" by (simp_all add: byte_le)
          from in2 have n2: "128 \<le> unat b2" "unat b2 \<le> 191" by (simp_all add: byte_le)
          from cont_byte [OF x(1) n1] have "unat b1 = 187" by simp
          moreover from cont_byte [OF x(2) n2] have "unat b2 = 191" by simp
          ultimately have "b1 = 0xBB" "b2 = 0xBF" by (simp_all add: byte_eq)
          then show ?thesis by (simp add: r r1)
        qed
      qed
    qed
  qed
qed

text \<open>A chunk decodes to text that begins with U+FEFF exactly when it begins with EF BB BF.\<close>

lemma decodes_to_bom_iff: "decodes_to_bom v = prefix [0xEF, 0xBB, 0xBF] v"
proof
  assume "prefix [0xEF, 0xBB, 0xBF] v"
  then obtain r where "v = [0xEF, 0xBB, 0xBF] @ r" by (auto simp: prefix_def)
  then show "decodes_to_bom v"
    by (simp add: decodes_to_bom_def utf8_handler_def utf8_lead_def utf8_init_def
        split: prod.split)
next
  assume a: "decodes_to_bom v"
  then have f: "first_is (\<lambda>c. c = 0xFEFF) (utf8_run utf8_init v)"
    by (simp add: decodes_to_bom_first)
  show "prefix [0xEF, 0xBB, 0xBF] v"
  proof (cases v)
    case Nil
    with f show ?thesis by (simp add: utf8_init_def)
  next
    case v: (Cons b0 r0)
    have b0: "unat b0 < 256" by (rule unat_byte_lt)
    consider (ascii) "b0 \<le> 0x7F"
      | (two) "\<not> b0 \<le> 0x7F" "0xC2 \<le> b0 \<and> b0 \<le> 0xDF"
      | (three) "\<not> b0 \<le> 0x7F" "\<not> (0xC2 \<le> b0 \<and> b0 \<le> 0xDF)" "0xE0 \<le> b0 \<and> b0 \<le> 0xEF"
      | (four) "\<not> b0 \<le> 0x7F" "\<not> (0xC2 \<le> b0 \<and> b0 \<le> 0xDF)" "\<not> (0xE0 \<le> b0 \<and> b0 \<le> 0xEF)"
          "0xF0 \<le> b0 \<and> b0 \<le> 0xF4"
      | (bad) "\<not> b0 \<le> 0x7F" "\<not> (0xC2 \<le> b0 \<and> b0 \<le> 0xDF)" "\<not> (0xE0 \<le> b0 \<and> b0 \<le> 0xEF)"
          "\<not> (0xF0 \<le> b0 \<and> b0 \<le> 0xF4)"
      by blast
    then show ?thesis
    proof cases
      case ascii
      then have "unat b0 \<le> 127" by (simp add: byte_le)
      with f ascii show ?thesis
        unfolding v by (simp add: utf8_handler_def utf8_lead_def utf8_init_def)
    next
      case two
      let ?d1 = "utf8_init\<lparr>bytes_needed := 1, code_point := unat b0 mod 32\<rparr>"
      from two have run: "utf8_run utf8_init (b0 # r0) = utf8_run ?d1 r0"
        by (auto simp add: utf8_handler_def utf8_lead_def utf8_init_def and_low)
      have "unat b0 mod 32 < 32" by simp
      then have "(code_point ?d1 + 1) * 64 ^ (bytes_needed ?d1 - bytes_seen ?d1) \<le> 0xFEFF"
        by (simp add: utf8_init_def)
      then have "\<not> first_is (\<lambda>c. c = 0xFEFF) (utf8_run ?d1 r0)"
        by (intro pending_not_bom) (simp_all add: utf8_init_def)
      with f show ?thesis unfolding v run by simp
    next
      case three
      then have n0: "224 \<le> unat b0" "unat b0 \<le> 239" by (simp_all add: byte_le)
      show ?thesis
      proof (cases "b0 = 0xEF")
        case True
        with f lead_EF [of r0] show ?thesis by (simp add: v)
      next
        case False
        then have "unat b0 \<noteq> 239" by (simp add: byte_eq)
        with n0 have c: "unat b0 mod 16 \<le> 14" by (intro lead3_low)
        let ?d1 = "utf8_init\<lparr>lower_boundary := (if b0 = 0xE0 then 0xA0 else 0x80),
                     upper_boundary := (if b0 = 0xED then 0x9F else 0xBF),
                     bytes_needed := 2, code_point := unat b0 mod 16\<rparr>"
        from three have run: "utf8_run utf8_init (b0 # r0) = utf8_run ?d1 r0"
          by (auto simp add: utf8_handler_def utf8_lead_def utf8_init_def and_low)
        from c have "(code_point ?d1 + 1) * 64 ^ (bytes_needed ?d1 - bytes_seen ?d1) \<le> 0xFEFF"
          by (simp add: utf8_init_def)
        then have "\<not> first_is (\<lambda>c. c = 0xFEFF) (utf8_run ?d1 r0)"
          by (intro pending_not_bom) (simp_all add: utf8_init_def)
        with f show ?thesis unfolding v run by simp
      qed
    next
      case four
      then have n0: "240 \<le> unat b0" "unat b0 \<le> 244" by (simp_all add: byte_le)
      let ?d1 = "utf8_init\<lparr>lower_boundary := (if b0 = 0xF0 then 0x90 else 0x80),
                   upper_boundary := (if b0 = 0xF4 then 0x8F else 0xBF),
                   bytes_needed := 3, code_point := unat b0 mod 8\<rparr>"
      from four have run: "utf8_run utf8_init (b0 # r0) = utf8_run ?d1 r0"
        by (auto simp add: utf8_handler_def utf8_lead_def utf8_init_def and_low)
      show ?thesis
      proof (cases "b0 = 0xF0")
        case False
        then have "unat b0 \<noteq> 240" by (simp add: byte_eq)
        with n0 have c: "1 \<le> unat b0 mod 8" by (intro lead4_high)
        have "(0xFEFF::nat) < 1 * 64 ^ 3" by simp
        also have "\<dots> \<le> (unat b0 mod 8) * 64 ^ 3" using c by (intro mult_right_mono) simp_all
        finally have "0xFEFF < code_point ?d1 * 64 ^ (bytes_needed ?d1 - bytes_seen ?d1)"
          by (simp add: utf8_init_def)
        then have "\<not> first_is (\<lambda>c. c = 0xFEFF) (utf8_run ?d1 r0)"
          by (intro pending_not_bom) (simp_all add: utf8_init_def)
        with f show ?thesis unfolding v run by simp
      next
        case F0: True
        let ?e1 = "utf8_init\<lparr>lower_boundary := 0x90, bytes_needed := 3, code_point := 0\<rparr>"
        have run': "utf8_run utf8_init (b0 # r0) = utf8_run ?e1 r0"
          unfolding F0 by (simp add: utf8_handler_def utf8_lead_def utf8_init_def)
        from f have f1: "first_is (\<lambda>c. c = 0xFEFF) (utf8_run ?e1 r0)"
          unfolding v by (simp only: run')
        show ?thesis
        proof (cases r0)
          case Nil
          with f1 show ?thesis by (simp add: utf8_init_def)
        next
          case r0: (Cons b1 r1)
          show ?thesis
          proof (cases "0x90 \<le> b1 \<and> b1 \<le> 0xBF")
            case False
            then have "\<not> first_is (\<lambda>c. c = 0xFEFF) (utf8_run ?e1 (b1 # r1))"
              by (intro out_of_range_first) (simp_all add: utf8_init_def)
            with f1 show ?thesis unfolding r0 by simp
          next
            case in1: True
            then have n1: "144 \<le> unat b1" "unat b1 \<le> 191" by (simp_all add: byte_le)
            then have x1: "16 \<le> unat b1 mod 64" by (intro cont_F0)
            let ?e2 = "?e1\<lparr>lower_boundary := 0x80, upper_boundary := 0xBF,
                         code_point := unat b1 mod 64, bytes_seen := 1\<rparr>"
            from in1 have run1: "utf8_run ?e1 (b1 # r1) = utf8_run ?e2 r1"
              by (simp add: utf8_handler_def utf8_init_def Let_def and_low or_low)
            have "(0xFEFF::nat) < 16 * 64 ^ 2" by simp
            also have "\<dots> \<le> (unat b1 mod 64) * 64 ^ 2"
              using x1 by (intro mult_right_mono) simp_all
            finally have "0xFEFF < code_point ?e2 * 64 ^ (bytes_needed ?e2 - bytes_seen ?e2)"
              by (simp add: utf8_init_def)
            then have "\<not> first_is (\<lambda>c. c = 0xFEFF) (utf8_run ?e2 r1)"
              by (intro pending_not_bom) (simp_all add: utf8_init_def)
            with f1 show ?thesis unfolding r0 by (simp only: run1)
          qed
        qed
      qed
    next
      case bad
      with f show ?thesis
        unfolding v by (simp add: utf8_handler_def utf8_lead_def utf8_init_def)
    qed
  qed
qed

text \<open>
  C1, amended. When every chunk but the last ends with a newline byte and no chunk after
  the first begins with the bytes EF BB BF (a byte-order mark), the calls of \<^verbatim>\<open>onChunk\<close>
  are those of the body delivered as one chunk, in the same order.
\<close>

theorem chatStream_line_aligned:
  "(\<forall>v \<in> set (butlast chunks). v \<noteq> [] \<and> last v = 0x0A)
   \<and> (\<forall>v \<in> set (tl chunks). \<not> prefix [0xEF, 0xBB, 0xBF] v)
   \<longrightarrow> chatStream_calls chunks = chatStream_calls [concat chunks]"
  using process_chunk_concat [of chunks]
  by (simp add: chatStream_calls_def read_loop_concat line_aligned_def decodes_to_bom_iff)

theorem chatStream_line_aligned_witness:
  \<open>ascii ''data: {"text":"hi"}'' @ [0x0A] \<noteq> []
   \<and> last (ascii ''data: {"text":"hi"}'' @ [0x0A]) = 0x0A
   \<and> \<not> prefix [0xEF, 0xBB, 0xBF] (ascii ''data: {"text":"!"}'' @ [0x0A])
   \<and> chatStream_calls [ascii ''data: {"text":"hi"}'' @ [0x0A], ascii ''data: {"text":"!"}'' @ [0x0A]]
       = [JString (js ''hi''), JString (js ''!'')]
   \<and> chatStream_calls [concat [ascii ''data: {"text":"hi"}'' @ [0x0A], ascii ''data: {"text":"!"}'' @ [0x0A]]]
       = [JString (js ''hi''), JString (js ''!'')]\<close>
  using chatStream_line_aligned
    [of \<open>[ascii ''data: {"text":"hi"}'' @ [0x0A], ascii ''data: {"text":"!"}'' @ [0x0A]]\<close>]
  by (simp add: json_eval reader_eval)

end
